theory Spec2Isabelle
  imports Complex_Main "HOL-Library.Sublist"
begin

section \<open>ThreadMeister: the geometric reasoning of the insert-hole add-in\<close>

text \<open>
  The add-in is one Python file, \<^verbatim>\<open>ThreadMeister.py\<close>. Its algorithmic functions
  are embedded here as HOL functions. Python floats are modelled as the reals, so every
  comparison is the exact one; \<^verbatim>\<open>float('inf')\<close> is a value of its own. Everything the
  host kernel answers (areas, centroids, bounding boxes, point containment, the edges of a
  body, the coordinate system of a sketch) is input data of the functions.
\<close>

subsection \<open>Values of the host kernel\<close>

record point3 =
  px :: real
  py :: real
  pz :: real

text \<open>\<^verbatim>\<open>Point3D.distanceTo\<close> and \<^verbatim>\<open>Vector3D.length\<close>: Euclidean distance and norm.\<close>

definition distanceTo :: "point3 \<Rightarrow> point3 \<Rightarrow> real" where
  "distanceTo p q = sqrt ((px p - px q)\<^sup>2 + (py p - py q)\<^sup>2 + (pz p - pz q)\<^sup>2)"

definition vec_length :: "point3 \<Rightarrow> real" where
  "vec_length v = sqrt ((px v)\<^sup>2 + (py v)\<^sup>2 + (pz v)\<^sup>2)"

record bbox =
  minPoint :: point3
  maxPoint :: point3

text \<open>
  A profile of a sketch, with what \<^verbatim>\<open>areaProperties\<close> and \<^verbatim>\<open>boundingBox\<close>
  report for it.
\<close>

record profile =
  prof_id :: nat
  prof_area :: real
  prof_centroid :: point3
  boundingBox :: bbox

text \<open>
  \<^verbatim>\<open>sketch.transform.getAsCoordinateSystem()\<close>: origin and the three axes of the
  sketch in world space.
\<close>

record coord_system =
  cs_origin :: point3
  xAxis :: point3
  yAxis :: point3
  zAxis :: point3

record sketch =
  sketch_id :: nat
  profiles :: "profile list"
  transform :: coord_system

record sketch_circle =
  parentSketch :: nat
  centerSketchPoint :: point3
  radius :: real
  area :: real

subsection \<open>Profile resolver: \<^verbatim>\<open>findProfileForCircle\<close>\<close>

text \<open>A candidate is the tuple \<^verbatim>\<open>(prof, props.area, distance)\<close> of the source.\<close>

type_synonym candidate = "profile \<times> real \<times> real"

definition cand_area :: "candidate \<Rightarrow> real" where
  "cand_area item = fst (snd item)"

text \<open>The coarse filters of the loop over \<^verbatim>\<open>sketch.profiles\<close> (area, centroid, bounding box).\<close>

fun coarse_filter :: "sketch_circle \<Rightarrow> profile list \<Rightarrow> candidate list" where
  "coarse_filter c [] = []"
| "coarse_filter c (prof # rest) =
     (let circle_center3d = centerSketchPoint c;
          circle_radius = radius c;
          target_area = area c;
          bbox_margin = circle_radius * 1.0;
          circle_bbox_min_x = px circle_center3d - circle_radius - bbox_margin;
          circle_bbox_max_x = px circle_center3d + circle_radius + bbox_margin;
          circle_bbox_min_y = py circle_center3d - circle_radius - bbox_margin;
          circle_bbox_max_y = py circle_center3d + circle_radius + bbox_margin
      in if prof_area prof > target_area * 1.01 then coarse_filter c rest
         else
           let distance = distanceTo circle_center3d (prof_centroid prof)
           in if distance > circle_radius then coarse_filter c rest
              else
                let prof_bbox = boundingBox prof;
                    is_contained =
                      (px (minPoint prof_bbox) \<ge> circle_bbox_min_x \<and>
                       px (maxPoint prof_bbox) \<le> circle_bbox_max_x \<and>
                       py (minPoint prof_bbox) \<ge> circle_bbox_min_y \<and>
                       py (maxPoint prof_bbox) \<le> circle_bbox_max_y)
                in if \<not> is_contained then coarse_filter c rest
                   else (prof, prof_area prof, distance) # coarse_filter c rest)"

text \<open>
  \<^verbatim>\<open>itertools.combinations(xs, r)\<close>: the sublists of length \<open>r\<close>, in lexicographic
  order of their positions.
\<close>

fun combinations :: "'a list \<Rightarrow> nat \<Rightarrow> 'a list list" where
  "combinations xs 0 = [[]]"
| "combinations [] (Suc r) = []"
| "combinations (x # xs) (Suc r) = map ((#) x) (combinations xs r) @ combinations xs (Suc r)"

text \<open>A Python float that may be \<^verbatim>\<open>float('inf')\<close>, with the comparisons the search uses.\<close>

datatype pyfloat = Finite real | PosInf

fun less_than :: "real \<Rightarrow> pyfloat \<Rightarrow> bool" where
  "less_than d PosInf = True"
| "less_than d (Finite b) = (d < b)"

fun at_most :: "pyfloat \<Rightarrow> real \<Rightarrow> bool" where
  "at_most PosInf t = False"
| "at_most (Finite b) t = (b \<le> t)"

text \<open>
  The variables of the search. \<open>examined\<close> lists the combinations evaluated so far, in
  order; the source counts them in \<^verbatim>\<open>combinations_tried\<close>.
\<close>

record search_state =
  best_profiles :: "profile list option"
  best_difference :: pyfloat
  examined :: "candidate list list"

definition difference :: "real \<Rightarrow> candidate list \<Rightarrow> real" where
  "difference target_area combo = \<bar>sum_list (map cand_area combo) - target_area\<bar>"

text \<open>The body of the inner loop up to the early-exit test.\<close>

definition try_combo :: "real \<Rightarrow> candidate list \<Rightarrow> search_state \<Rightarrow> search_state" where
  "try_combo target_area combo s =
     (let d = difference target_area combo;
          s1 = s\<lparr>examined := examined s @ [combo]\<rparr>
      in if less_than d (best_difference s1)
         then s1\<lparr>best_difference := Finite d, best_profiles := Some (map fst combo)\<rparr>
         else s1)"

definition near_perfect :: "real \<Rightarrow> search_state \<Rightarrow> bool" where
  "near_perfect target_area s = at_most (best_difference s) (target_area * 0.00003)"

fun inner_loop :: "real \<Rightarrow> candidate list list \<Rightarrow> search_state \<Rightarrow> search_state" where
  "inner_loop t [] s = s"
| "inner_loop t (combo # rest) s =
     (let s' = try_combo t combo s
      in if near_perfect t s' then s' else inner_loop t rest s')"

fun outer_loop :: "real \<Rightarrow> candidate list \<Rightarrow> nat list \<Rightarrow> search_state \<Rightarrow> search_state" where
  "outer_loop t cands [] s = s"
| "outer_loop t cands (r # rs) s =
     (let s' = inner_loop t (combinations cands r) s
      in if near_perfect t s' then s' else outer_loop t cands rs s')"

datatype resolved = NotFound | SingleProfile profile | ProfileCollection "profile list"

datatype py_error = TypeError | KeyError | KernelError

text \<open>
  What one call did: its return value, the number of profiles whose properties it asked
  the kernel for, and the combinations it evaluated.
\<close>

record resolver_run =
  result :: resolved
  profiles_queried :: nat
  combos_examined :: "candidate list list"

definition sorted_candidates :: "sketch \<Rightarrow> sketch_circle \<Rightarrow> candidate list" where
  "sorted_candidates sk c = sort_key (\<lambda>x. - cand_area x) (coarse_filter c (profiles sk))"

definition init_search :: search_state where
  "init_search = \<lparr>best_profiles = None, best_difference = PosInf, examined = []\<rparr>"

definition search :: "real \<Rightarrow> candidate list \<Rightarrow> search_state" where
  "search target_area cands =
     (let max_profiles = min (length cands) 15
      in outer_loop target_area cands [1..<max_profiles + 1] init_search)"

definition as_result :: "profile list \<Rightarrow> resolved" where
  "as_result ps = (case ps of [p] \<Rightarrow> SingleProfile p | _ \<Rightarrow> ProfileCollection ps)"

definition findProfileForCircle :: "sketch \<Rightarrow> sketch_circle \<Rightarrow> py_error + resolver_run" where
  "findProfileForCircle sk target_circle =
     (if parentSketch target_circle \<noteq> sketch_id sk
      then Inr \<lparr>result = NotFound, profiles_queried = 0, combos_examined = []\<rparr>
      else
        let target_area = area target_circle;
            n = length (profiles sk)
        in if coarse_filter target_circle (profiles sk) = []
           then Inr \<lparr>result = NotFound, profiles_queried = n, combos_examined = []\<rparr>
           else
             let s = search target_area (sorted_candidates sk target_circle);
                 tolerance = target_area * 0.03
             in case best_profiles s of
                  None \<Rightarrow> Inl TypeError
                | Some ps \<Rightarrow>
                    if \<not> at_most (best_difference s) tolerance
                    then Inr \<lparr>result = NotFound, profiles_queried = n,
                              combos_examined = examined s\<rparr>
                    else Inr \<lparr>result = as_result ps, profiles_queried = n,
                              combos_examined = examined s\<rparr>)"

subsection \<open>Bodies, edges and sketch coordinates\<close>

datatype PointContainment =
  PointInsidePointContainment | PointOnPointContainment | PointOutsidePointContainment

datatype ExtentDirections = PositiveExtentDirection | NegativeExtentDirection

text \<open>\<^verbatim>\<open>edge.geometry\<close>: a circle with center, radius and normal, or another curve type.\<close>

datatype curve3d = Circle3D point3 real point3 | OtherCurve

record edge =
  edge_id :: nat
  geometry :: curve3d

record body =
  pointContainment :: "point3 \<Rightarrow> PointContainment"
  edges :: "edge list"

text \<open>\<^verbatim>\<open>Point3D.transformBy\<close> with the matrix of a coordinate system.\<close>

definition transformBy :: "coord_system \<Rightarrow> point3 \<Rightarrow> point3" where
  "transformBy T p =
     \<lparr>px = px (cs_origin T) + px p * px (xAxis T) + py p * px (yAxis T) + pz p * px (zAxis T),
      py = py (cs_origin T) + px p * py (xAxis T) + py p * py (yAxis T) + pz p * py (zAxis T),
      pz = pz (cs_origin T) + px p * pz (xAxis T) + py p * pz (yAxis T) + pz p * pz (zAxis T)\<rparr>"

text \<open>
  The first lines of every geometric function: the circle center (of which only
  \<^verbatim>\<open>x\<close> and \<^verbatim>\<open>y\<close> are read) as a world point.
\<close>

definition center3D_of :: "sketch \<Rightarrow> point3 \<Rightarrow> point3" where
  "center3D_of sk circleCenter =
     transformBy (transform sk) \<lparr>px = px circleCenter, py = py circleCenter, pz = 0\<rparr>"

definition offset_plus :: "point3 \<Rightarrow> point3 \<Rightarrow> real \<Rightarrow> point3" where
  "offset_plus c z d = \<lparr>px = px c + px z * d, py = py c + py z * d, pz = pz c + pz z * d\<rparr>"

definition offset_minus :: "point3 \<Rightarrow> point3 \<Rightarrow> real \<Rightarrow> point3" where
  "offset_minus c z d = \<lparr>px = px c - px z * d, py = py c - py z * d, pz = pz c - pz z * d\<rparr>"

definition dot :: "point3 \<Rightarrow> point3 \<Rightarrow> real" where
  "dot u v = px u * px v + py u * py v + pz u * pz v"

subsection \<open>Direction inferencer: \<^verbatim>\<open>findExtrudeDirectionFromSketch\<close>\<close>

definition testDistances :: "real list" where
  "testDistances = [0.01, 0.05, 0.1, 0.2]"

fun positive_loop :: "body \<Rightarrow> point3 \<Rightarrow> point3 \<Rightarrow> real list \<Rightarrow> bool" where
  "positive_loop targetBody center3D z [] = False"
| "positive_loop targetBody center3D z (testDistance # rest) =
     (let positiveContainment = pointContainment targetBody (offset_plus center3D z testDistance)
      in if positiveContainment = PointInsidePointContainment \<or>
            positiveContainment = PointOnPointContainment
         then True
         else positive_loop targetBody center3D z rest)"

fun negative_loop :: "body \<Rightarrow> point3 \<Rightarrow> point3 \<Rightarrow> real list \<Rightarrow> bool" where
  "negative_loop targetBody center3D z [] = False"
| "negative_loop targetBody center3D z (testDistance # rest) =
     (let negativeContainment = pointContainment targetBody (offset_minus center3D z testDistance)
      in if negativeContainment = PointInsidePointContainment \<or>
            negativeContainment = PointOnPointContainment
         then True
         else negative_loop targetBody center3D z rest)"

definition findExtrudeDirectionFromSketch ::
  "sketch \<Rightarrow> point3 \<Rightarrow> body \<Rightarrow> ExtentDirections option" where
  "findExtrudeDirectionFromSketch sk circleCenter targetBody =
     (let center3D = center3D_of sk circleCenter;
          z = zAxis (transform sk);
          positiveIsInside = positive_loop targetBody center3D z testDistances;
          negativeIsInside = negative_loop targetBody center3D z testDistances
      in if positiveIsInside \<and> \<not> negativeIsInside then Some PositiveExtentDirection
         else if negativeIsInside \<and> \<not> positiveIsInside then Some NegativeExtentDirection
         else if positiveIsInside \<and> negativeIsInside then
           (let verySmallDistance = 0.001;
                posContain = pointContainment targetBody
                               (offset_plus center3D z verySmallDistance);
                negContain = pointContainment targetBody
                               (offset_minus center3D z verySmallDistance);
                posOut = (posContain = PointOutsidePointContainment);
                negOut = (negContain = PointOutsidePointContainment)
            in if posOut \<and> \<not> negOut then Some NegativeExtentDirection
               else if negOut \<and> \<not> posOut then Some PositiveExtentDirection
               else Some PositiveExtentDirection)
         else None)"

subsection \<open>Through-bore distance: \<^verbatim>\<open>findDistanceThroughBody\<close>\<close>

definition maxDistance :: real where "maxDistance = 100.0"
definition stepSize :: real where "stepSize = 0.1"

text \<open>
  The loop over \<^verbatim>\<open>range(1, int(maxDistance / stepSize) + 1)\<close>; it yields the exit
  distance, or None when the range is used up.
\<close>

fun march :: "body \<Rightarrow> point3 \<Rightarrow> point3 \<Rightarrow> real \<Rightarrow> nat list \<Rightarrow> bool \<Rightarrow> real option" where
  "march targetBody center3D z multiplier [] insideBody = None"
| "march targetBody center3D z multiplier (i # rest) insideBody =
     (let distance = real i * stepSize;
          containment = pointContainment targetBody
                          (offset_plus center3D z (distance * multiplier));
          insideBody' = (insideBody \<or> containment = PointInsidePointContainment)
      in if insideBody' \<and> containment = PointOutsidePointContainment
         then Some distance
         else march targetBody center3D z multiplier rest insideBody')"

definition steps :: "nat list" where
  "steps = [1..<nat \<lfloor>maxDistance / stepSize\<rfloor> + 1]"

definition findDistanceThroughBody ::
  "sketch \<Rightarrow> point3 \<Rightarrow> body \<Rightarrow> ExtentDirections \<Rightarrow> real" where
  "findDistanceThroughBody sk circleCenter targetBody direction =
     (let center3D = center3D_of sk circleCenter;
          z = zAxis (transform sk);
          multiplier = (if direction = PositiveExtentDirection then 1.0 else - 1.0)
      in case march targetBody center3D z multiplier steps False of
           Some exitDistance \<Rightarrow> exitDistance + 0.2
         | None \<Rightarrow> 10.0)"

subsection \<open>Feature edge locator: \<^verbatim>\<open>findChamferEdge\<close> and \<^verbatim>\<open>addBottomRadiusToBlindHole\<close>\<close>

definition vec_between :: "point3 \<Rightarrow> point3 \<Rightarrow> point3" where
  "vec_between edgeCenter center3D =
     \<lparr>px = px edgeCenter - px center3D, py = py edgeCenter - py center3D,
      pz = pz edgeCenter - pz center3D\<rparr>"

text \<open>The loop over \<^verbatim>\<open>targetBody.edges\<close> of \<^verbatim>\<open>findChamferEdge\<close>.\<close>

fun chamfer_candidates :: "point3 \<Rightarrow> point3 \<Rightarrow> real \<Rightarrow> edge list \<Rightarrow> (edge \<times> real) list" where
  "chamfer_candidates center3D z expectedRadius [] = []"
| "chamfer_candidates center3D z expectedRadius (e # rest) =
     (case geometry e of
        OtherCurve \<Rightarrow> chamfer_candidates center3D z expectedRadius rest
      | Circle3D edgeCenter edgeRadius edgeNormal \<Rightarrow>
          if \<bar>edgeRadius - expectedRadius\<bar> > 0.001
          then chamfer_candidates center3D z expectedRadius rest
          else
            let dotProduct = \<bar>dot edgeNormal z\<bar>
            in if dotProduct < 0.99
               then chamfer_candidates center3D z expectedRadius rest
               else
                 let vecToEdge = vec_between edgeCenter center3D;
                     projection = dot vecToEdge z;
                     perpDist = vec_length vecToEdge - \<bar>projection\<bar>
                 in if perpDist > 0.01
                    then chamfer_candidates center3D z expectedRadius rest
                    else (e, \<bar>projection\<bar>) # chamfer_candidates center3D z expectedRadius rest)"

definition findChamferEdge :: "body \<Rightarrow> sketch \<Rightarrow> point3 \<Rightarrow> real \<Rightarrow> edge option" where
  "findChamferEdge targetBody sk circleCenter holeDiameter =
     (let center3D = center3D_of sk circleCenter;
          z = zAxis (transform sk);
          expectedRadius = holeDiameter / 2.0;
          candidateEdges = chamfer_candidates center3D z expectedRadius (edges targetBody)
      in if length candidateEdges > 0
         then Some (fst (hd (sort_key snd candidateEdges)))
         else None)"

text \<open>The loop over \<^verbatim>\<open>targetBody.edges\<close> of \<^verbatim>\<open>addBottomRadiusToBlindHole\<close>.\<close>

fun bottom_candidates :: "point3 \<Rightarrow> point3 \<Rightarrow> real \<Rightarrow> edge list \<Rightarrow> (edge \<times> real) list" where
  "bottom_candidates center3D z expectedRadius [] = []"
| "bottom_candidates center3D z expectedRadius (e # rest) =
     (case geometry e of
        OtherCurve \<Rightarrow> bottom_candidates center3D z expectedRadius rest
      | Circle3D edgeCenter edgeRadius edgeNormal \<Rightarrow>
          let radiusDiff = \<bar>edgeRadius - expectedRadius\<bar>
          in if radiusDiff > 0.005
             then bottom_candidates center3D z expectedRadius rest
             else
               let dotProduct = \<bar>dot edgeNormal z\<bar>
               in if dotProduct < 0.95
                  then bottom_candidates center3D z expectedRadius rest
                  else
                    let vecToEdge = vec_between edgeCenter center3D;
                        distanceAlongNormal = \<bar>dot vecToEdge z\<bar>;
                        perpDistanceSquared = (vec_length vecToEdge)\<^sup>2 - distanceAlongNormal\<^sup>2;
                        perpDistance = sqrt (max 0 perpDistanceSquared)
                    in if perpDistance > 0.05
                       then bottom_candidates center3D z expectedRadius rest
                       else (e, distanceAlongNormal)
                              # bottom_candidates center3D z expectedRadius rest)"

text \<open>
  The bottom edge the function picks (\<^verbatim>\<open>bottomEdge\<close> and \<^verbatim>\<open>bottomDistance\<close>),
  None when no candidate is left.
\<close>

definition bottomEdge :: "body \<Rightarrow> sketch \<Rightarrow> point3 \<Rightarrow> real \<Rightarrow> (edge \<times> real) option" where
  "bottomEdge targetBody sk circleCenter holeDiameter =
     (let center3D = center3D_of sk circleCenter;
          z = zAxis (transform sk);
          expectedRadius = holeDiameter / 2.0;
          candidateEdges = bottom_candidates center3D z expectedRadius (edges targetBody)
      in if length candidateEdges = 0 then None
         else Some (hd (sort_key (\<lambda>x. - snd x) candidateEdges)))"

datatype feature =
  CutFeature sketch_circle resolved ExtentDirections real
| ChamferFeature edge real
| FilletFeature edge real

text \<open>
  \<open>kernel_ok\<close> says whether the kernel creates the fillet; when it raises or returns
  nothing the function returns None.
\<close>

definition addBottomRadiusToBlindHole ::
  "bool \<Rightarrow> body \<Rightarrow> sketch \<Rightarrow> point3 \<Rightarrow> real \<Rightarrow> real \<Rightarrow> feature option" where
  "addBottomRadiusToBlindHole kernel_ok targetBody sk circleCenter holeDiameter radiusSize =
     (let filletRadiusCm = radiusSize / 10.0
      in case bottomEdge targetBody sk circleCenter holeDiameter of
           None \<Rightarrow> None
         | Some (e, bottomDistance) \<Rightarrow>
             if kernel_ok then Some (FilletFeature e filletRadiusCm) else None)"

definition addChamferToEdge :: "bool \<Rightarrow> edge \<Rightarrow> real \<Rightarrow> feature option" where
  "addChamferToEdge kernel_ok e chamferSize =
     (if kernel_ok then Some (ChamferFeature e (chamferSize / 10.0)) else None)"

subsection \<open>Orchestrator: \<^verbatim>\<open>CommandExecuteHandler.notify\<close>\<close>

text \<open>
  \<^verbatim>\<open>INSERT_SPECS\<close> maps an insert name to (hole diameter, insert length, minimum wall),
  all in mm; \<open>default_inserts\<close> is the table the module starts with.
\<close>

type_synonym insert_specs = "string \<rightharpoonup> (real \<times> real \<times> real)"

definition default_inserts :: insert_specs where
  \<open>default_inserts = map_of
     [(''M2 x 3mm'', (3.2, 3.0, 1.5)),
      (''M2.5 x 4mm'', (4.0, 4.0, 1.5)),
      (''M3 x 3mm (short)'', (4.4, 3.0, 1.6)),
      (''M3 x 4mm (short)'', (4.4, 4.0, 1.6)),
      (''M3 x 5.7mm (standard)'', (4.4, 5.7, 1.6)),
      (''M4 x 4mm (short)'', (5.6, 4.0, 2.0)),
      (''M4 x 8.1mm (standard)'', (5.6, 8.1, 2.0)),
      (''M5 x 5.8mm (short)'', (6.4, 5.8, 2.5)),
      (''M5 x 9.5mm (standard)'', (6.4, 9.5, 2.5)),
      (''M6 x 12.7mm'', (8.0, 12.7, 3.0)),
      (''M8 x 12.7mm'', (9.7, 12.7, 4.0)),
      (''M10 x 12.7mm'', (12.0, 12.7, 5.0)),
      (''1/4"-20 x 12.7mm (camera)'', (8.0, 12.7, 3.0))]\<close>

record config =
  chamfer_size :: real
  blind_hole_extra_depth :: real
  bottom_radius_size :: real

definition default_config :: config where
  "default_config = \<lparr>chamfer_size = 0.5, blind_hole_extra_depth = 1.0, bottom_radius_size = 0.5\<rparr>"

text \<open>
  A selected sketch point, together with what the kernel answers while this point is
  processed: its parent sketch with the profiles it has once the circle is drawn, the area
  of that circle, the target body (point containment as asked before the cut, edges as
  listed after it), and whether the kernel's cut, chamfer and fillet commands succeed.
\<close>

record selected_point =
  point_geometry :: point3
  point_sketch :: sketch
  kernel_circle_area :: real
  body_view :: body
  cut_raises :: bool
  chamfer_kernel_ok :: bool
  fillet_kernel_ok :: bool

record command_inputs =
  selectedPoints :: "selected_point list"
  insertName :: string
  blindHoleSelected :: bool
  addChamfer :: bool
  addBottomRadius :: bool

text \<open>
  The design the command edits (the constructed circles, each under the number it was
  created with, and the features added) and the local variables of \<^verbatim>\<open>notify\<close>.
  \<open>fatal\<close> is set when an exception reaches the outer \<^verbatim>\<open>except\<close>.
\<close>

record run_state =
  circles :: "(nat \<times> sketch_circle) list"
  next_circle :: nat
  features :: "feature list"
  successCount :: nat
  failedCount :: nat
  fatal :: "py_error option"

definition deleteMe :: "nat \<Rightarrow> (nat \<times> sketch_circle) list \<Rightarrow> (nat \<times> sketch_circle) list" where
  "deleteMe cid cs = filter (\<lambda>entry. fst entry \<noteq> cid) cs"

definition add_feature :: "feature option \<Rightarrow> run_state \<Rightarrow> run_state" where
  "add_feature f s = (case f of None \<Rightarrow> s | Some g \<Rightarrow> s\<lparr>features := features s @ [g]\<rparr>)"

text \<open>
  \<^verbatim>\<open>sketchCircles.addByCenterRadius\<close>: the circle the kernel draws in the point's
  sketch, with the area the kernel reports for it.
\<close>

definition addByCenterRadius :: "selected_point \<Rightarrow> real \<Rightarrow> sketch_circle" where
  "addByCenterRadius point radius_cm =
     \<lparr>parentSketch = sketch_id (point_sketch point), centerSketchPoint = point_geometry point,
      radius = radius_cm, area = kernel_circle_area point\<rparr>"

text \<open>The body of the loop over \<^verbatim>\<open>selectedPoints\<close>.\<close>

definition process_point ::
  "bool \<Rightarrow> bool \<Rightarrow> bool \<Rightarrow> real \<Rightarrow> real \<Rightarrow> config \<Rightarrow> selected_point \<Rightarrow> run_state \<Rightarrow> run_state" where
  "process_point isBlindHole includeChamfer includeBottomRadius radius_cm insertLen CONFIG point s =
     (let diameter = radius_cm * 2.0;
          pSketch = point_sketch point;
          center2d = point_geometry point;
          targetBody = body_view point;
          cid = next_circle s;
          circle = addByCenterRadius point radius_cm;
          s1 = s\<lparr>circles := circles s @ [(cid, circle)], next_circle := Suc cid\<rparr>
      in case findProfileForCircle pSketch circle of
           Inl err \<Rightarrow> s1\<lparr>fatal := Some err\<rparr>
         | Inr run \<Rightarrow>
             if result run = NotFound
             then s1\<lparr>failedCount := failedCount s1 + 1, circles := deleteMe cid (circles s1)\<rparr>
             else
               case findExtrudeDirectionFromSketch pSketch center2d targetBody of
                 None \<Rightarrow>
                   s1\<lparr>failedCount := failedCount s1 + 1, circles := deleteMe cid (circles s1)\<rparr>
               | Some direction \<Rightarrow>
                   let distance =
                         (if isBlindHole
                          then (insertLen + blind_hole_extra_depth CONFIG) / 10.0
                          else findDistanceThroughBody pSketch center2d targetBody direction)
                   in if cut_raises point then s1\<lparr>fatal := Some KernelError\<rparr>
                      else
                        let s2 = s1\<lparr>features := features s1
                                        @ [CutFeature circle (result run) direction distance]\<rparr>;
                            s3 = (if includeChamfer
                                  then case findChamferEdge targetBody pSketch center2d diameter of
                                         Some chamferEdge \<Rightarrow>
                                           add_feature (addChamferToEdge (chamfer_kernel_ok point)
                                                          chamferEdge (chamfer_size CONFIG)) s2
                                       | None \<Rightarrow> s2
                                  else s2);
                            s4 = (if includeBottomRadius
                                  then add_feature
                                         (addBottomRadiusToBlindHole (fillet_kernel_ok point)
                                            targetBody pSketch center2d diameter
                                            (bottom_radius_size CONFIG)) s3
                                  else s3)
                        in s4\<lparr>successCount := successCount s4 + 1\<rparr>)"

fun process_points ::
  "bool \<Rightarrow> bool \<Rightarrow> bool \<Rightarrow> real \<Rightarrow> real \<Rightarrow> config \<Rightarrow> selected_point list \<Rightarrow> run_state \<Rightarrow> run_state" where
  "process_points b ch br r len CONFIG [] s = s"
| "process_points b ch br r len CONFIG (point # rest) s =
     (let s' = process_point b ch br r len CONFIG point s
      in if fatal s' \<noteq> None then s' else process_points b ch br r len CONFIG rest s')"

text \<open>
  \<^verbatim>\<open>notify\<close> up to the end of the loop; the timeline group and the message boxes that
  follow do not touch circles, features or counts.
\<close>

definition notify :: "insert_specs \<Rightarrow> config \<Rightarrow> command_inputs \<Rightarrow> run_state \<Rightarrow> run_state" where
  "notify INSERT_SPECS CONFIG inputs design =
     (let isBlindHole = blindHoleSelected inputs;
          includeChamfer = addChamfer inputs;
          includeBottomRadius = (addBottomRadius inputs \<and> isBlindHole);
          s = design\<lparr>successCount := 0, failedCount := 0, fatal := None\<rparr>
      in case INSERT_SPECS (insertName inputs) of
           None \<Rightarrow> s\<lparr>fatal := Some KeyError\<rparr>
         | Some (holeDia, insertLen, minWall) \<Rightarrow>
             let radius_cm = holeDia / 2.0 / 10.0
             in process_points isBlindHole includeChamfer includeBottomRadius radius_cm insertLen
                  CONFIG (selectedPoints inputs) s)"

subsection \<open>Notions used to state the properties\<close>

text \<open>
  All combinations the nested loops of the search can reach, in the order they reach
  them: sizes 1 to \<^verbatim>\<open>min(len(candidates), 15)\<close>, each size in the order of
  \<^verbatim>\<open>itertools.combinations\<close>.
\<close>

definition all_combos :: "'a list \<Rightarrow> 'a list list" where
  "all_combos cands = concat (map (combinations cands) [1..<min (length cands) 15 + 1])"

text \<open>
  The best-so-far variables agree with the combinations examined: either nothing was
  examined yet, or they hold an examined combination of least difference.
\<close>

definition best_inv :: "real \<Rightarrow> search_state \<Rightarrow> bool" where
  "best_inv t s =
     ((examined s = [] \<and> best_profiles s = None \<and> best_difference s = PosInf) \<or>
      (\<exists>c\<in>set (examined s). best_profiles s = Some (map fst c) \<and>
          best_difference s = Finite (difference t c) \<and>
          (\<forall>c'\<in>set (examined s). difference t c \<le> difference t c')))"


text \<open>
  For the through-bore march: the containment of the \<open>i\<close>-th sample, the condition
  under which sample \<open>i\<close> is an exit (it is strictly outside and an earlier sample was
  strictly inside), the containment along a ray that runs through material of thickness
  \<open>T\<close> from the anchor, and the value \<^verbatim>\<open>findDistanceThroughBody\<close> computes from
  world center, normal and multiplier.
\<close>

definition sample :: "body \<Rightarrow> point3 \<Rightarrow> point3 \<Rightarrow> real \<Rightarrow> nat \<Rightarrow> PointContainment" where
  "sample targetBody center3D z multiplier i =
     pointContainment targetBody (offset_plus center3D z (real i * stepSize * multiplier))"

definition exit_at :: "body \<Rightarrow> point3 \<Rightarrow> point3 \<Rightarrow> real \<Rightarrow> nat \<Rightarrow> bool" where
  "exit_at targetBody center3D z multiplier i =
     (1 \<le> i \<and> i \<le> 1000 \<and>
      sample targetBody center3D z multiplier i = PointOutsidePointContainment \<and>
      (\<exists>j\<in>set [1..<i].
           sample targetBody center3D z multiplier j = PointInsidePointContainment))"

definition slab_class :: "real \<Rightarrow> real \<Rightarrow> PointContainment" where
  "slab_class T d =
     (if d < T then PointInsidePointContainment
      else if d = T then PointOnPointContainment
      else PointOutsidePointContainment)"

definition through_result :: "body \<Rightarrow> point3 \<Rightarrow> point3 \<Rightarrow> real \<Rightarrow> real" where
  "through_result b c z m =
     (case march b c z m steps False of Some exitDistance \<Rightarrow> exitDistance + 0.2 | None \<Rightarrow> 10.0)"

text \<open>
  For the edge locator: the candidate lists the two functions build from their arguments,
  and the perpendicular distance of an edge center from the bore axis, as
  \<^verbatim>\<open>addBottomRadiusToBlindHole\<close> computes it.
\<close>

definition chamfer_survivors :: "body \<Rightarrow> sketch \<Rightarrow> point3 \<Rightarrow> real \<Rightarrow> (edge \<times> real) list" where
  "chamfer_survivors targetBody sk circleCenter holeDiameter =
     chamfer_candidates (center3D_of sk circleCenter) (zAxis (transform sk))
       (holeDiameter / 2.0) (edges targetBody)"

definition bottom_survivors :: "body \<Rightarrow> sketch \<Rightarrow> point3 \<Rightarrow> real \<Rightarrow> (edge \<times> real) list" where
  "bottom_survivors targetBody sk circleCenter holeDiameter =
     bottom_candidates (center3D_of sk circleCenter) (zAxis (transform sk))
       (holeDiameter / 2.0) (edges targetBody)"

definition perpDistance :: "point3 \<Rightarrow> point3 \<Rightarrow> point3 \<Rightarrow> real" where
  "perpDistance center3D z edgeCenter =
     (let vecToEdge = vec_between edgeCenter center3D
      in sqrt (max 0 ((vec_length vecToEdge)\<^sup>2 - \<bar>dot vecToEdge z\<bar>\<^sup>2)))"

text \<open>
  For the orchestrator: a point fails at one of the two stages when profile resolution
  returns NotFound or, the profile found, direction inference returns None.
\<close>

definition stage_failed :: "real \<Rightarrow> selected_point \<Rightarrow> bool" where
  "stage_failed radius_cm point =
     (case findProfileForCircle (point_sketch point) (addByCenterRadius point radius_cm) of
        Inl err \<Rightarrow> False
      | Inr run \<Rightarrow>
          result run = NotFound \<or>
          findExtrudeDirectionFromSketch (point_sketch point) (point_geometry point)
            (body_view point) = None)"

definition circle_ids :: "run_state \<Rightarrow> nat set" where
  "circle_ids s = fst ` set (circles s)"

definition fresh :: "run_state \<Rightarrow> bool" where
  "fresh s = (\<forall>i\<in>circle_ids s. i < next_circle s)"

definition is_cut :: "feature \<Rightarrow> bool" where
  "is_cut f = (case f of CutFeature c prof dir depth \<Rightarrow> True | _ \<Rightarrow> False)"

definition cut_depth :: "feature \<Rightarrow> real" where
  "cut_depth f = (case f of CutFeature c prof dir depth \<Rightarrow> depth | _ \<Rightarrow> 0)"

definition cut_diameter :: "feature \<Rightarrow> real" where
  "cut_diameter f = (case f of CutFeature c prof dir depth \<Rightarrow> radius c * 2 | _ \<Rightarrow> 0)"

text \<open>
  Two parts of the loop body of \<^verbatim>\<open>notify\<close> under names of their own: the chamfer and
  fillet steps after the cut together with the success count, and the extrusion distance
  of the cut.
\<close>

definition cosmetic ::
  "bool \<Rightarrow> bool \<Rightarrow> real \<Rightarrow> config \<Rightarrow> selected_point \<Rightarrow> run_state \<Rightarrow> run_state" where
  "cosmetic includeChamfer includeBottomRadius diameter CONFIG point s2 =
     (let s3 = (if includeChamfer
                then case findChamferEdge (body_view point) (point_sketch point)
                            (point_geometry point) diameter of
                       Some chamferEdge \<Rightarrow>
                         add_feature (addChamferToEdge (chamfer_kernel_ok point)
                                        chamferEdge (chamfer_size CONFIG)) s2
                     | None \<Rightarrow> s2
                else s2);
          s4 = (if includeBottomRadius
                then add_feature
                       (addBottomRadiusToBlindHole (fillet_kernel_ok point)
                          (body_view point) (point_sketch point) (point_geometry point) diameter
                          (bottom_radius_size CONFIG)) s3
                else s3)
      in s4\<lparr>successCount := successCount s4 + 1\<rparr>)"

definition hole_distance :: "bool \<Rightarrow> real \<Rightarrow> config \<Rightarrow> selected_point \<Rightarrow> ExtentDirections \<Rightarrow> real" where
  "hole_distance isBlindHole insertLen CONFIG point direction =
     (if isBlindHole then (insertLen + blind_hole_extra_depth CONFIG) / 10.0
      else findDistanceThroughBody (point_sketch point) (point_geometry point)
             (body_view point) direction)"

subsection \<open>Example inputs\<close>

definition pt :: "real \<Rightarrow> real \<Rightarrow> real \<Rightarrow> point3" where
  "pt a b c = \<lparr>px = a, py = b, pz = c\<rparr>"

definition box_profile :: "nat \<Rightarrow> real \<Rightarrow> point3 \<Rightarrow> real \<Rightarrow> profile" where
  "box_profile i a c h =
     \<lparr>prof_id = i, prof_area = a, prof_centroid = c,
      boundingBox = \<lparr>minPoint = pt (px c - h) (py c - h) 0, maxPoint = pt (px c + h) (py c + h) 0\<rparr>\<rparr>"

definition world_xy :: coord_system where
  "world_xy = \<lparr>cs_origin = pt 0 0 0, xAxis = pt 1 0 0, yAxis = pt 0 1 0, zAxis = pt 0 0 1\<rparr>"

text \<open>
  A circle of radius 5.64 and area 100 at the origin of a sketch in the world's XY plane,
  and four sketches around it: one whose disc is a single profile of area 97; one with
  profiles of areas 98 and 1.5 in the disc; one whose disc is cut into two profiles of
  areas 60 and 40, with a neighbouring profile of area 30;
  and one whose disc is cut into a profile of area 99 and a sliver of area 1, with fourteen
  rings of area 10 around it.
\<close>

definition notch_sketch :: sketch where
  "notch_sketch = \<lparr>sketch_id = 1, profiles = [box_profile 0 97 (pt 0 0 0) 5.64],
                    transform = world_xy\<rparr>"

definition pair_sketch :: sketch where
  "pair_sketch =
     \<lparr>sketch_id = 1,
      profiles = [box_profile 0 1.5 (pt 5 0 0) 0.6, box_profile 1 98 (pt 0 0 0) 5.64],
      transform = world_xy\<rparr>"

definition split_sketch :: sketch where
  "split_sketch =
     \<lparr>sketch_id = 1,
      profiles = [box_profile 0 40 (pt 1.5 0 0) 4, box_profile 1 30 (pt 5 0 0) 3,
                  box_profile 2 60 (pt (- 1) 0 0) 5],
      transform = world_xy\<rparr>"

definition ring_profiles :: "profile list" where
  "ring_profiles =
     [box_profile 0 10 (pt 0 0 0) 6, box_profile 1 10 (pt 0 0 0) 6.2,
      box_profile 2 1 (pt 5.5 0 0) 1,
      box_profile 3 10 (pt 0 0 0) 6.4, box_profile 4 10 (pt 0 0 0) 6.6,
      box_profile 5 10 (pt 0 0 0) 6.8, box_profile 6 10 (pt 0 0 0) 7,
      box_profile 7 99 (pt 0 0 0) 5.64,
      box_profile 8 10 (pt 0 0 0) 7.2, box_profile 9 10 (pt 0 0 0) 7.4,
      box_profile 10 10 (pt 0 0 0) 7.6, box_profile 11 10 (pt 0 0 0) 7.8,
      box_profile 12 10 (pt 0 0 0) 8, box_profile 13 10 (pt 0 0 0) 8.2,
      box_profile 14 10 (pt 0 0 0) 8.4, box_profile 15 10 (pt 0 0 0) 8.6]"

definition ring_sketch :: sketch where
  "ring_sketch = \<lparr>sketch_id = 1, profiles = ring_profiles, transform = world_xy\<rparr>"

definition bore_circle :: sketch_circle where
  "bore_circle = \<lparr>parentSketch = 1, centerSketchPoint = pt 0 0 0, radius = 5.64, area = 100\<rparr>"


text \<open>
  A plate 10 mm thick under the sketch plane (world \<open>z\<close> from -1 to 0, in cm), with
  the edges it has after a blind bore of radius 0.22 and depth 0.67 at the origin and a
  second bore 3 cm away; its sketch, whose profiles are the face and the disc of the
  circle; and a body that contains no point.
\<close>

definition plate_edges :: "edge list" where
  "plate_edges =
     [\<lparr>edge_id = 0, geometry = OtherCurve\<rparr>,
      \<lparr>edge_id = 1, geometry = Circle3D (pt 0 0 (- 0.67)) 0.22 (pt 0 0 1)\<rparr>,
      \<lparr>edge_id = 2, geometry = Circle3D (pt 0 0 0) 0.22 (pt 0 0 1)\<rparr>,
      \<lparr>edge_id = 3, geometry = Circle3D (pt 3 0 0) 0.22 (pt 0 0 1)\<rparr>]"

definition plate :: body where
  "plate =
     \<lparr>pointContainment =
        (\<lambda>p. if - 1 < pz p \<and> pz p < 0 then PointInsidePointContainment
             else if pz p = 0 \<or> pz p = - 1 then PointOnPointContainment
             else PointOutsidePointContainment),
      edges = plate_edges\<rparr>"

definition nowhere :: body where
  "nowhere = \<lparr>pointContainment = (\<lambda>p. PointOutsidePointContainment), edges = []\<rparr>"

definition plate_sketch :: sketch where
  "plate_sketch =
     \<lparr>sketch_id = 1,
      profiles = [box_profile 0 99.848 (pt 0 0 0) 5, box_profile 1 0.152 (pt 0 0 0) 0.22],
      transform = world_xy\<rparr>"

text \<open>
  A body with a single circular edge of the bore's radius, parallel to the sketch, 11 mm
  below the sketch plane and 1.05 mm beside the bore axis.
\<close>

definition offaxis_edge :: edge where
  "offaxis_edge = \<lparr>edge_id = 7, geometry = Circle3D (pt 0.105 0 (- 1.1)) 0.22 (pt 0 0 1)\<rparr>"

definition offaxis_body :: body where
  "offaxis_body = \<lparr>pointContainment = pointContainment plate, edges = [offaxis_edge]\<rparr>"

text \<open>
  Three selected points: one on the plate; one on the plate's sketch while the target body
  contains no point; and one in a sketch without profiles. The command of the first
  end-to-end scenario: the plate point, insert M3 x 5.7mm (standard), blind hole, with
  chamfer and bottom fillet, on an empty design.
\<close>

definition plate_point :: selected_point where
  "plate_point =
     \<lparr>point_geometry = pt 0 0 0, point_sketch = plate_sketch, kernel_circle_area = 0.152,
      body_view = plate, cut_raises = False, chamfer_kernel_ok = True,
      fillet_kernel_ok = True\<rparr>"

definition air_point :: selected_point where
  "air_point = plate_point\<lparr>body_view := nowhere\<rparr>"

definition lost_point :: selected_point where
  "lost_point = plate_point\<lparr>point_sketch := plate_sketch\<lparr>profiles := []\<rparr>\<rparr>"

definition empty_design :: run_state where
  "empty_design = \<lparr>circles = [], next_circle = 0, features = [], successCount = 0,
                    failedCount = 0, fatal = None\<rparr>"

definition m3_command :: "selected_point list \<Rightarrow> command_inputs" where
  "m3_command pts =
     \<lparr>selectedPoints = pts, insertName = ''M3 x 5.7mm (standard)'', blindHoleSelected = True,
      addChamfer = True, addBottomRadius = True\<rparr>"

text \<open>
  A sketch whose disc holds sixteen islands of area 1 beside a profile of area 84, and a
  slab of material of thickness \<open>T\<close> under the sketch plane.
\<close>

definition island :: "nat \<Rightarrow> profile" where
  "island i = box_profile i 1 (pt (real i / 4 - 2) 0 0) 0.5"

definition island_sketch :: sketch where
  "island_sketch =
     \<lparr>sketch_id = 1,
      profiles = map island [1, 2, 3, 4, 5, 6, 7, 8] @ [box_profile 0 84 (pt 0 0 0) 5.64]
                 @ map island [9, 10, 11, 12, 13, 14, 15, 16],
      transform = world_xy\<rparr>"

definition slab_body :: "real \<Rightarrow> body" where
  "slab_body T =
     \<lparr>pointContainment =
        (\<lambda>p. if - T < pz p \<and> pz p < 0 then PointInsidePointContainment
             else if pz p = 0 \<or> pz p = - T then PointOnPointContainment
             else PointOutsidePointContainment),
      edges = []\<rparr>"

section \<open>Properties of the profile resolver\<close>

lemma try_combo_examined: "examined (try_combo t c s) = examined s @ [c]"
  by (simp add: try_combo_def Let_def)

lemma near_perfect_try_hit:
  "\<not> near_perfect t s \<Longrightarrow> difference t c \<le> t * 0.00003 \<Longrightarrow>
   try_combo t c s = \<lparr>best_profiles = Some (map fst c), best_difference = Finite (difference t c),
                      examined = examined s @ [c]\<rparr>"
  by (cases "best_difference s") (auto simp: try_combo_def near_perfect_def Let_def)

lemma near_perfect_try_miss:
  "\<not> near_perfect t s \<Longrightarrow> difference t c > t * 0.00003 \<Longrightarrow> \<not> near_perfect t (try_combo t c s)"
  by (cases "best_difference s") (auto simp: try_combo_def near_perfect_def Let_def)

lemma inner_loop_append:
  "\<not> near_perfect t s \<Longrightarrow>
   inner_loop t (xs @ ys) s =
     (let s' = inner_loop t xs s in if near_perfect t s' then s' else inner_loop t ys s')"
  by (induction xs arbitrary: s) (auto simp: Let_def)

lemma outer_loop_flat:
  "\<not> near_perfect t s \<Longrightarrow>
   outer_loop t cands rs s = inner_loop t (concat (map (combinations cands) rs)) s"
  by (induction rs arbitrary: s) (auto simp: Let_def inner_loop_append)

lemma inner_loop_miss:
  "\<not> near_perfect t s \<Longrightarrow> \<forall>c\<in>set xs. difference t c > t * 0.00003 \<Longrightarrow>
   \<not> near_perfect t (inner_loop t xs s) \<and> examined (inner_loop t xs s) = examined s @ xs"
  by (induction xs arbitrary: s) (auto simp: Let_def near_perfect_try_miss try_combo_examined)

lemma inner_loop_hit:
  assumes "\<not> near_perfect t s" "\<forall>c\<in>set pre. difference t c > t * 0.00003"
    "difference t hit \<le> t * 0.00003"
  shows "inner_loop t (pre @ hit # post) s =
     \<lparr>best_profiles = Some (map fst hit), best_difference = Finite (difference t hit),
      examined = examined s @ pre @ [hit]\<rparr>"
proof -
  let ?s = "inner_loop t pre s"
  have m: "\<not> near_perfect t ?s" "examined ?s = examined s @ pre"
    using inner_loop_miss[OF assms(1,2)] by auto
  have "inner_loop t (pre @ hit # post) s = inner_loop t (hit # post) ?s"
    using inner_loop_append[OF assms(1), of pre "hit # post"] m(1) by (simp add: Let_def)
  also have "\<dots> = try_combo t hit ?s"
    using near_perfect_try_hit[OF m(1) assms(3)] assms(3)
    by (simp add: Let_def near_perfect_def)
  finally show ?thesis using near_perfect_try_hit[OF m(1) assms(3)] m(2) by simp
qed

lemma try_combo_inv: "best_inv t s \<Longrightarrow> best_inv t (try_combo t c s)"
proof (cases "best_difference s")
  case PosInf
  assume "best_inv t s"
  with PosInf have e: "examined s = []" by (auto simp: best_inv_def)
  show ?thesis using PosInf e by (simp add: best_inv_def try_combo_def Let_def)
next
  case (Finite b)
  assume "best_inv t s"
  with Finite obtain c0 where c0: "c0 \<in> set (examined s)" "best_profiles s = Some (map fst c0)"
    "b = difference t c0" "\<forall>c'\<in>set (examined s). difference t c0 \<le> difference t c'"
    by (auto simp: best_inv_def)
  show ?thesis
  proof (cases "difference t c < b")
    case True
    then have "try_combo t c s = s\<lparr>examined := examined s @ [c], best_difference := Finite (difference t c),
        best_profiles := Some (map fst c)\<rparr>"
      using Finite by (simp add: try_combo_def Let_def)
    moreover have "\<forall>c'\<in>set (examined s @ [c]). difference t c \<le> difference t c'"
      using True c0 by fastforce
    ultimately show ?thesis by (auto simp: best_inv_def)
  next
    case False
    then have "try_combo t c s = s\<lparr>examined := examined s @ [c]\<rparr>"
      using Finite by (simp add: try_combo_def Let_def)
    moreover have "\<forall>c'\<in>set (examined s @ [c]). difference t c0 \<le> difference t c'"
      using False c0 by fastforce
    ultimately show ?thesis using c0 Finite by (auto simp: best_inv_def)
  qed
qed

lemma inner_loop_inv: "best_inv t s \<Longrightarrow> best_inv t (inner_loop t xs s)"
  by (induction xs arbitrary: s) (auto simp: Let_def try_combo_inv)

lemma inner_loop_prefix:
  "\<exists>ys. examined (inner_loop t xs s) = examined s @ ys \<and> prefix ys xs \<and> (xs \<noteq> [] \<longrightarrow> ys \<noteq> [])"
proof (induction xs arbitrary: s)
  case Nil
  then show ?case by simp
next
  case (Cons x xs)
  show ?case
  proof (cases "near_perfect t (try_combo t x s)")
    case True
    then show ?thesis by (auto simp: Let_def try_combo_examined intro!: exI[of _ "[x]"])
  next
    case False
    from Cons.IH[of "try_combo t x s"] obtain ys where
      "examined (inner_loop t xs (try_combo t x s)) = examined (try_combo t x s) @ ys" "prefix ys xs"
      by blast
    with False show ?thesis
      by (auto simp: Let_def try_combo_examined intro!: exI[of _ "x # ys"])
  qed
qed

lemma inner_loop_complete:
  "\<not> near_perfect t (inner_loop t xs s) \<Longrightarrow> examined (inner_loop t xs s) = examined s @ xs"
  by (induction xs arbitrary: s) (auto simp: Let_def try_combo_examined split: if_splits)

lemma near_perfect_init: "\<not> near_perfect t init_search"
  by (simp add: near_perfect_def init_search_def)

lemma search_flat: "search t cands = inner_loop t (all_combos cands) init_search"
  unfolding search_def all_combos_def Let_def by (rule outer_loop_flat[OF near_perfect_init])

lemma best_inv_init: "best_inv t init_search"
  by (simp add: best_inv_def init_search_def)

lemma combinations_one: "combinations xs (Suc 0) = map (\<lambda>x. [x]) xs"
  by (induction xs) auto

lemma all_combos_nonempty: "cands \<noteq> [] \<Longrightarrow> all_combos cands \<noteq> []"
proof -
  assume "cands \<noteq> []"
  then have "1 < min (length cands) 15 + 1" by (cases cands) auto
  then have "[1..<min (length cands) 15 + 1] = 1 # [Suc 1..<min (length cands) 15 + 1]"
    by (rule upt_conv_Cons)
  then have "all_combos cands =
      combinations cands 1 @ concat (map (combinations cands) [Suc 1..<min (length cands) 15 + 1])"
    unfolding all_combos_def by simp
  then show ?thesis using \<open>cands \<noteq> []\<close> by (simp add: combinations_one)
qed

lemma all_combos_Nil: "all_combos [] = []"
  by (simp add: all_combos_def)

lemma sorted_candidates_Nil:
  "sorted_candidates sk c = [] \<longleftrightarrow> coarse_filter c (profiles sk) = []"
  by (metis length_sort length_0_conv sorted_candidates_def)

lemma length_combinations_elem: "c \<in> set (combinations xs r) \<Longrightarrow> length c = r"
  by (induction xs r arbitrary: c rule: combinations.induct) auto

lemma subseq_combinations: "c \<in> set (combinations xs r) \<Longrightarrow> subseq c xs"
  by (induction xs r arbitrary: c rule: combinations.induct) (auto intro: subseq_Cons')

lemma length_combinations: "length (combinations xs r) = length xs choose r"
  by (induction xs r rule: combinations.induct) auto

lemma all_combos_elem:
  assumes "c \<in> set (all_combos cands)"
  shows "1 \<le> length c \<and> length c \<le> 15 \<and> length c \<le> length cands \<and> subseq c cands"
proof -
  from assms obtain r where "r \<in> set [1..<min (length cands) 15 + 1]" "c \<in> set (combinations cands r)"
    unfolding all_combos_def by auto
  then have r: "1 \<le> r" "r \<le> min (length cands) 15" "c \<in> set (combinations cands r)"
    by auto
  then show ?thesis using length_combinations_elem[OF r(3)] subseq_combinations[OF r(3)] by auto
qed

lemma combos_sorted_by_length:
  "sorted rs \<Longrightarrow> sorted_wrt (\<lambda>a b. length a \<le> length b) (concat (map (combinations xs) rs))"
proof (induction rs)
  case Nil
  then show ?case by simp
next
  case (Cons r rs)
  have "sorted_wrt (\<lambda>a b. length a \<le> length b) (combinations xs r)"
    by (rule sorted_wrt_mono_rel[where P = "\<lambda>a b. True"])
       (auto simp: length_combinations_elem)
  with Cons show ?case
    by (auto simp: sorted_wrt_append dest!: length_combinations_elem)
qed

lemma all_combos_split_length:
  "all_combos cands = pre @ hit # post \<Longrightarrow> \<forall>x\<in>set pre. length x \<le> length hit"
  using combos_sorted_by_length[of "[1..<min (length cands) 15 + 1]" cands]
  by (auto simp: all_combos_def sorted_wrt_append)

lemma length_all_combos:
  "length (all_combos cands) = (\<Sum>r = 1..min (length cands) 15. length cands choose r)"
proof -
  have "length (all_combos cands) =
        sum_list (map (\<lambda>r. length cands choose r) [1..<min (length cands) 15 + 1])"
    by (simp add: all_combos_def length_concat comp_def length_combinations del: upt_Suc)
  also have "\<dots> = (\<Sum>r = 1..<min (length cands) 15 + 1. length cands choose r)"
    by (simp only: interv_sum_list_conv_sum_set_nat set_upt)
  also have "{1..<min (length cands) 15 + 1} = {1..min (length cands) 15}" by auto
  finally show ?thesis .
qed

lemma sum_choose_bound: "m \<le> n \<Longrightarrow> (\<Sum>r = 1..m. n choose r) < 2 ^ n"
proof -
  assume "m \<le> n"
  have "(\<Sum>r = 1..m. n choose r) \<le> (\<Sum>r = 1..n. n choose r)"
    using \<open>m \<le> n\<close> by (intro sum_mono2) auto
  also have "\<dots> < (\<Sum>r = 0..n. n choose r)"
    by (simp add: sum.atLeast_Suc_atMost[of 0 n])
  also have "\<dots> = 2 ^ n" using choose_row_sum[of n] by (simp add: atLeast0AtMost)
  finally show ?thesis .
qed

lemma pt_sel: "px (pt a b c) = a" "py (pt a b c) = b" "pz (pt a b c) = c"
  by (simp_all add: pt_def)

lemma distanceTo_along_x:
  "py p = py q \<Longrightarrow> pz p = pz q \<Longrightarrow> distanceTo p q = \<bar>px p - px q\<bar>"
  by (simp add: distanceTo_def)

lemma ring_candidates:
  "coarse_filter bore_circle (profiles ring_sketch) =
     map (\<lambda>p. (p, prof_area p, if prof_id p = 2 then 5.5 else 0)) ring_profiles"
  by (simp add: ring_sketch_def ring_profiles_def bore_circle_def box_profile_def pt_def
      distanceTo_along_x Let_def)


lemma combinations_numeral:
  "combinations (x # xs) (numeral k) =
     map ((#) x) (combinations xs (pred_numeral k)) @ combinations xs (numeral k)"
  "combinations [] (numeral k) = []"
  by (simp_all add: numeral_eq_Suc)

lemma ring_sorted:
  "sorted_candidates ring_sketch bore_circle =
     map (\<lambda>p. (p, prof_area p, if prof_id p = 2 then 5.5 else 0))
       [box_profile 7 99 (pt 0 0 0) 5.64,
        box_profile 0 10 (pt 0 0 0) 6, box_profile 1 10 (pt 0 0 0) 6.2,
        box_profile 3 10 (pt 0 0 0) 6.4, box_profile 4 10 (pt 0 0 0) 6.6,
        box_profile 5 10 (pt 0 0 0) 6.8, box_profile 6 10 (pt 0 0 0) 7,
        box_profile 8 10 (pt 0 0 0) 7.2, box_profile 9 10 (pt 0 0 0) 7.4,
        box_profile 10 10 (pt 0 0 0) 7.6, box_profile 11 10 (pt 0 0 0) 7.8,
        box_profile 12 10 (pt 0 0 0) 8, box_profile 13 10 (pt 0 0 0) 8.2,
        box_profile 14 10 (pt 0 0 0) 8.4, box_profile 15 10 (pt 0 0 0) 8.6,
        box_profile 2 1 (pt 5.5 0 0) 1]"
  unfolding sorted_candidates_def ring_candidates
  by (simp add: ring_profiles_def box_profile_def cand_area_def)

lemma search_facts:
  assumes "cands \<noteq> []"
  shows "best_inv t (search t cands)"
    and "prefix (examined (search t cands)) (all_combos cands)"
    and "examined (search t cands) \<noteq> []"
    and "\<not> near_perfect t (search t cands) \<Longrightarrow> examined (search t cands) = all_combos cands"
proof -
  show "best_inv t (search t cands)"
    unfolding search_flat by (rule inner_loop_inv[OF best_inv_init])
  from inner_loop_prefix[of t "all_combos cands" init_search] all_combos_nonempty[OF assms]
  show "prefix (examined (search t cands)) (all_combos cands)"
    and "examined (search t cands) \<noteq> []"
    unfolding search_flat by (auto simp: init_search_def)
  show "\<not> near_perfect t (search t cands) \<Longrightarrow> examined (search t cands) = all_combos cands"
    unfolding search_flat using inner_loop_complete[of t "all_combos cands" init_search]
    by (simp add: init_search_def)
qed

lemma as_result_not_NotFound: "as_result ps \<noteq> NotFound"
  by (simp add: as_result_def split: list.splits)

text \<open>
  C1. Acceptance boundary. When the circle lies in the sketch and at least one profile
  passes the coarse filters, the search ends with a best combination: one of the
  combinations it examined, of least area difference among them. The function returns that
  combination exactly when its difference is at most 3% of the circle's area (a difference
  equal to 3% is accepted), and NotFound otherwise. Unless the best combination is
  near-perfect (a difference of at most 0.003% of the area), every combination of the
  search was examined, so the best one is the best of all of them; the same holds when the
  function returns NotFound for a circle of non-negative area.
\<close>

theorem acceptance_boundary:
  assumes "parentSketch circ = sketch_id sk" and "coarse_filter circ (profiles sk) \<noteq> []"
  shows "\<exists>run best.
           findProfileForCircle sk circ = Inr run \<and>
           prefix (combos_examined run) (all_combos (sorted_candidates sk circ)) \<and>
           best \<in> set (combos_examined run) \<and>
           (\<forall>c\<in>set (combos_examined run). difference (area circ) best \<le> difference (area circ) c) \<and>
           result run = (if difference (area circ) best \<le> area circ * 0.03
                         then as_result (map fst best) else NotFound) \<and>
           (result run \<noteq> NotFound \<longleftrightarrow> difference (area circ) best \<le> area circ * 0.03) \<and>
           (area circ * 0.00003 < difference (area circ) best \<longrightarrow>
              combos_examined run = all_combos (sorted_candidates sk circ)) \<and>
           (result run = NotFound \<and> 0 \<le> area circ \<longrightarrow>
              combos_examined run = all_combos (sorted_candidates sk circ))"
proof -
  let ?t = "area circ"
  let ?cands = "sorted_candidates sk circ"
  let ?s = "search ?t ?cands"
  have ne: "?cands \<noteq> []" using assms(2) by (simp add: sorted_candidates_Nil)
  note sf = search_facts[OF ne, of ?t]
  from sf(1) sf(3) obtain best where best: "best \<in> set (examined ?s)"
    "best_profiles ?s = Some (map fst best)" "best_difference ?s = Finite (difference ?t best)"
    "\<forall>c\<in>set (examined ?s). difference ?t best \<le> difference ?t c"
    by (auto simp: best_inv_def)
  let ?run = "\<lparr>result = (if difference ?t best \<le> ?t * 0.03 then as_result (map fst best) else NotFound),
      profiles_queried = length (profiles sk), combos_examined = examined ?s\<rparr>"
  have run: "findProfileForCircle sk circ = Inr ?run"
    using assms best(2,3) by (simp add: findProfileForCircle_def Let_def)
  have complete: "combos_examined ?run = all_combos ?cands" if "result ?run = NotFound" "0 \<le> ?t"
  proof -
    from that(1) have "\<not> difference ?t best \<le> ?t * 0.03"
      by (auto simp: as_result_not_NotFound split: if_splits)
    moreover have "?t * 0.00003 \<le> ?t * 0.03" using that(2) by (simp add: mult_left_mono)
    ultimately have "\<not> near_perfect ?t ?s" using best(3) by (simp add: near_perfect_def)
    from sf(4)[OF this] show ?thesis by simp
  qed
  have whole: "combos_examined ?run = all_combos ?cands" if "?t * 0.00003 < difference ?t best"
  proof -
    from that have "\<not> near_perfect ?t ?s" using best(3) by (simp add: near_perfect_def)
    from sf(4)[OF this] show ?thesis by simp
  qed
  have "prefix (combos_examined ?run) (all_combos ?cands)" using sf(2) by simp
  moreover have "best \<in> set (combos_examined ?run)" using best(1) by simp
  moreover have "\<forall>c\<in>set (combos_examined ?run). difference ?t best \<le> difference ?t c"
    using best(4) by simp
  moreover have "result ?run = (if difference ?t best \<le> ?t * 0.03
                         then as_result (map fst best) else NotFound)" by simp
  moreover have "result ?run \<noteq> NotFound \<longleftrightarrow> difference ?t best \<le> ?t * 0.03"
    by (simp add: as_result_not_NotFound)
  ultimately show ?thesis using run complete whole by blast
qed

text \<open>
  C5. Early exit. If some combination of the search has an area difference of at most
  0.003% of the circle's area, the function returns the first such combination in search
  order; that combination is the last one examined, and no examined combination is larger
  than it.
\<close>

theorem early_exit:
  assumes "parentSketch circ = sketch_id sk"
    and "c \<in> set (all_combos (sorted_candidates sk circ))"
    and "difference (area circ) c \<le> area circ * 0.00003"
  shows "\<exists>pre hit post run.
           all_combos (sorted_candidates sk circ) = pre @ hit # post \<and>
           (\<forall>x\<in>set pre. difference (area circ) x > area circ * 0.00003) \<and>
           difference (area circ) hit \<le> area circ * 0.00003 \<and>
           findProfileForCircle sk circ = Inr run \<and>
           result run = as_result (map fst hit) \<and>
           combos_examined run = pre @ [hit] \<and>
           (\<forall>x\<in>set (combos_examined run). length x \<le> length hit)"
proof -
  let ?t = "area circ"
  let ?cands = "sorted_candidates sk circ"
  from assms(2,3) have "\<exists>x\<in>set (all_combos ?cands). difference ?t x \<le> ?t * 0.00003" by blast
  from split_list_first_prop[OF this] obtain pre hit post where
    sp: "all_combos ?cands = pre @ hit # post" "difference ?t hit \<le> ?t * 0.00003"
      "\<forall>x\<in>set pre. \<not> difference ?t x \<le> ?t * 0.00003" by blast
  then have pre: "\<forall>x\<in>set pre. difference ?t x > ?t * 0.00003" by auto
  have s: "search ?t ?cands = \<lparr>best_profiles = Some (map fst hit),
      best_difference = Finite (difference ?t hit), examined = pre @ [hit]\<rparr>"
    unfolding search_flat sp(1)
    using inner_loop_hit[OF near_perfect_init pre sp(2), of post] by (simp add: init_search_def)
  have ne: "coarse_filter circ (profiles sk) \<noteq> []"
    using assms(2) sorted_candidates_Nil[of sk circ] by (auto simp: all_combos_Nil)
  have "0 \<le> difference ?t hit" by (simp add: difference_def)
  with sp(2) have "0 \<le> ?t" by (simp add: zero_le_mult_iff)
  then have "?t * 0.00003 \<le> ?t * 0.03" by (simp add: mult_left_mono)
  with sp(2) have tol: "difference ?t hit \<le> ?t * 0.03" by linarith
  let ?run = "\<lparr>result = as_result (map fst hit), profiles_queried = length (profiles sk),
      combos_examined = pre @ [hit]\<rparr>"
  have run: "findProfileForCircle sk circ = Inr ?run"
    using assms(1) ne tol by (simp add: findProfileForCircle_def Let_def s)
  have "\<forall>x\<in>set (combos_examined ?run). length x \<le> length hit"
    using all_combos_split_length[OF sp(1)] by simp
  with sp(1,2) pre run show ?thesis by force
qed

text \<open>
  C6, as amended. The search examines only combinations of 1 to 15 candidates, each a
  subsequence of all the sorted candidates (not only of the 15 largest). Their number is at
  most the number of such subsequences, and below \<open>2^15\<close> when at most 15 candidates
  passed the coarse filters.
\<close>

theorem combination_size_cap:
  assumes "findProfileForCircle sk circ = Inr run"
  shows "(\<forall>c\<in>set (combos_examined run).
            1 \<le> length c \<and> length c \<le> 15 \<and> subseq c (sorted_candidates sk circ)) \<and>
         length (combos_examined run) \<le>
            (\<Sum>r = 1..min (length (sorted_candidates sk circ)) 15.
                length (sorted_candidates sk circ) choose r) \<and>
         (length (sorted_candidates sk circ) \<le> 15 \<longrightarrow> length (combos_examined run) < 2 ^ 15)"
proof -
  let ?cands = "sorted_candidates sk circ"
  have pre: "prefix (combos_examined run) (all_combos ?cands)"
  proof (cases "parentSketch circ = sketch_id sk \<and> coarse_filter circ (profiles sk) \<noteq> []")
    case True
    then have ne: "?cands \<noteq> []" by (simp add: sorted_candidates_Nil)
    from True assms search_facts(2)[OF ne, of "area circ"] show ?thesis
      by (auto simp: findProfileForCircle_def Let_def split: option.splits if_splits)
  next
    case False
    with assms show ?thesis
      by (auto simp: findProfileForCircle_def Let_def split: if_splits)
  qed
  then have sub: "set (combos_examined run) \<subseteq> set (all_combos ?cands)"
    and len: "length (combos_examined run) \<le> length (all_combos ?cands)"
    by (auto simp: set_mono_prefix prefix_length_le)
  have 1: "\<forall>c\<in>set (combos_examined run). 1 \<le> length c \<and> length c \<le> 15 \<and> subseq c ?cands"
    using sub all_combos_elem by blast
  have 2: "length (combos_examined run) \<le> (\<Sum>r = 1..min (length ?cands) 15. length ?cands choose r)"
    using len by (simp add: length_all_combos)
  have 3: "length (combos_examined run) < 2 ^ 15" if "length ?cands \<le> 15"
  proof -
    have "(\<Sum>r = 1..min (length ?cands) 15. length ?cands choose r) < 2 ^ length ?cands"
      by (rule sum_choose_bound) simp
    also have "\<dots> \<le> (2::nat) ^ 15" using that by (intro power_increasing) auto
    finally show ?thesis using 2 by linarith
  qed
  from 1 2 3 show ?thesis by blast
qed

lemma island_sorted:
  "sorted_candidates island_sketch bore_circle =
     (box_profile 0 84 (pt 0 0 0) 5.64, 84, 0)
       # map (\<lambda>i. (island i, 1, \<bar>real i / 4 - 2\<bar>))
           [1, 2, 3, 4, 5, 6, 7, 8, 9, 10, 11, 12, 13, 14, 15, 16]"
  by (simp add: sorted_candidates_def island_sketch_def bore_circle_def island_def box_profile_def
      pt_sel distanceTo_along_x Let_def cand_area_def)

lemma unit_sum:
  "subseq c us \<Longrightarrow> \<forall>u\<in>set us. cand_area u = 1 \<Longrightarrow> sum_list (map cand_area c) = real (length c)"
proof (induction c arbitrary: us)
  case Nil
  show ?case by simp
next
  case (Cons x c)
  from Cons.prems(1) have "x \<in> set us" "subseq c us"
    by (auto elim: list_emb_set dest: subseq_Cons')
  with Cons show ?case by simp
qed

lemma combo_sum_bound:
  assumes "subseq c (b # us)" "cand_area b = 84" "\<forall>u\<in>set us. cand_area u = 1" "length c \<le> 15"
  shows "sum_list (map cand_area c) \<le> 98"
proof (cases c)
  case Nil
  then show ?thesis by simp
next
  case (Cons x c')
  show ?thesis
  proof (cases "x = b")
    case True
    with assms(1) Cons have "subseq c' us" by simp
    from unit_sum[OF this assms(3)] True Cons assms(2,4) show ?thesis by simp
  next
    case False
    with assms(1) Cons have "subseq c us" by simp
    from unit_sum[OF this assms(3)] assms(4) show ?thesis by simp
  qed
qed

lemma island_no_hit:
  "\<forall>c\<in>set (all_combos (sorted_candidates island_sketch bore_circle)).
     difference 100 c > 100 * 0.00003"
proof
  fix c assume "c \<in> set (all_combos (sorted_candidates island_sketch bore_circle))"
  from all_combos_elem[OF this]
  have c: "length c \<le> 15" "subseq c (sorted_candidates island_sketch bore_circle)" by auto
  have "sum_list (map cand_area c) \<le> 98"
    using c(2) unfolding island_sorted
    by (rule combo_sum_bound) (use c(1) in \<open>auto simp: cand_area_def\<close>)
  then show "difference 100 c > 100 * 0.00003" by (simp add: difference_def)
qed

lemma examined_run:
  assumes "parentSketch c = sketch_id sk" "coarse_filter c (profiles sk) \<noteq> []"
  shows "combos_examined (projr (findProfileForCircle sk c)) =
           examined (search (area c) (sorted_candidates sk c))"
proof -
  have ne: "sorted_candidates sk c \<noteq> []" using assms(2) by (simp add: sorted_candidates_Nil)
  from search_facts(1,3)[OF ne, of "area c"]
  obtain ps where "best_profiles (search (area c) (sorted_candidates sk c)) = Some ps"
    by (auto simp: best_inv_def)
  with assms show ?thesis by (simp add: findProfileForCircle_def Let_def)
qed

lemma row17: "(\<Sum>r = 1..15. 17 choose r) = (2::nat) ^ 17 - 19"
proof -
  have "(\<Sum>r\<le>17. 17 choose r) = (2::nat) ^ 17" by (rule choose_row_sum)
  moreover have "{..17::nat} = insert 0 (insert 16 (insert 17 {1..15}))" by auto
  moreover have "(17::nat) choose 16 = 17"
    using binomial_symmetric[of 16 17] by simp
  ultimately have "(\<Sum>r = 1..15. 17 choose r) + 19 = (2::nat) ^ 17" by simp
  then show ?thesis by linarith
qed

lemma island_examined:
  "length (combos_examined (projr (findProfileForCircle island_sketch bore_circle))) = 2 ^ 17 - 19"
proof -
  let ?cands = "sorted_candidates island_sketch bore_circle"
  have len: "length ?cands = 17" unfolding island_sorted by simp
  have g: "parentSketch bore_circle = sketch_id island_sketch"
    by (simp add: bore_circle_def island_sketch_def)
  have ne: "coarse_filter bore_circle (profiles island_sketch) \<noteq> []"
    using len sorted_candidates_Nil[of island_sketch bore_circle] by auto
  have a: "area bore_circle = 100" by (simp add: bore_circle_def)
  have "examined (search 100 ?cands) = all_combos ?cands"
    unfolding search_flat
    using inner_loop_miss[OF near_perfect_init island_no_hit] by (simp add: init_search_def)
  then have "combos_examined (projr (findProfileForCircle island_sketch bore_circle)) = all_combos ?cands"
    using examined_run[OF g ne] a by simp
  then have "length (combos_examined (projr (findProfileForCircle island_sketch bore_circle))) =
      (\<Sum>r = 1..min 17 15. 17 choose r)"
    using length_all_combos[of ?cands] unfolding len by simp
  also have "min 17 15 = (15::nat)" by simp
  finally show ?thesis unfolding row17 .
qed


text \<open>
  C6 as stated fails. In the sketch with the rings, sixteen profiles pass the coarse
  filters, and the pair returned contains the smallest of them, which is not among the 15
  largest. In the sketch with the islands, seventeen profiles pass, no combination is
  near-perfect, and the search examines \<open>2^17 - 19\<close> combinations, more than
  \<open>2^15\<close>.
\<close>

theorem candidate_cap_counterexample:
  "length (sorted_candidates ring_sketch bore_circle) = 16 \<and>
   map_sum id result (findProfileForCircle ring_sketch bore_circle) =
     Inr (ProfileCollection [box_profile 7 99 (pt 0 0 0) 5.64, box_profile 2 1 (pt 5.5 0 0) 1]) \<and>
   box_profile 2 1 (pt 5.5 0 0) 1
     \<notin> set (map fst (take 15 (sorted_candidates ring_sketch bore_circle))) \<and>
   length (sorted_candidates island_sketch bore_circle) = 17 \<and>
   2 ^ 15 < length (combos_examined (projr (findProfileForCircle island_sketch bore_circle)))"
proof -
  have "map_sum id result (findProfileForCircle ring_sketch bore_circle) =
     Inr (ProfileCollection [box_profile 7 99 (pt 0 0 0) 5.64, box_profile 2 1 (pt 5.5 0 0) 1])"
    unfolding findProfileForCircle_def ring_sorted ring_candidates
    by (simp add: ring_sketch_def bore_circle_def ring_profiles_def search_def init_search_def
        try_combo_def near_perfect_def difference_def cand_area_def as_result_def
        combinations_numeral Let_def box_profile_def)
  moreover have "length (sorted_candidates ring_sketch bore_circle) = 16"
    unfolding ring_sorted by simp
  moreover have "box_profile 2 1 (pt 5.5 0 0) 1
     \<notin> set (map fst (take 15 (sorted_candidates ring_sketch bore_circle)))"
    unfolding ring_sorted by (simp add: box_profile_def)
  moreover have "length (sorted_candidates island_sketch bore_circle) = 17"
    unfolding island_sorted by simp
  moreover have "2 ^ 15 < length (combos_examined (projr (findProfileForCircle island_sketch bore_circle)))"
    unfolding island_examined by simp
  ultimately show ?thesis by blast
qed

text \<open>
  C10. When the circle's parent sketch is not the sketch passed in, the function returns
  NotFound at once: no profile is queried and no combination is evaluated.
\<close>

theorem findProfileForCircle_foreign_sketch:
  "parentSketch target_circle \<noteq> sketch_id sk \<Longrightarrow>
   findProfileForCircle sk target_circle =
     Inr \<lparr>result = NotFound, profiles_queried = 0, combos_examined = []\<rparr>"
  by (simp add: findProfileForCircle_def)

subsection \<open>The properties at the example inputs\<close>

lemma notch_candidates:
  "coarse_filter bore_circle (profiles notch_sketch) = [(box_profile 0 97 (pt 0 0 0) 5.64, 97, 0)]"
  by (simp add: notch_sketch_def bore_circle_def box_profile_def pt_def distanceTo_along_x Let_def)

lemma notch_combos:
  "all_combos (sorted_candidates notch_sketch bore_circle) =
     [[(box_profile 0 97 (pt 0 0 0) 5.64, 97, 0)]]"
  unfolding sorted_candidates_def notch_candidates by (simp add: all_combos_def)

lemma pair_candidates:
  "coarse_filter bore_circle (profiles pair_sketch) =
     [(box_profile 0 1.5 (pt 5 0 0) 0.6, 1.5, 5), (box_profile 1 98 (pt 0 0 0) 5.64, 98, 0)]"
  by (simp add: pair_sketch_def bore_circle_def box_profile_def pt_sel distanceTo_along_x Let_def)

lemma pair_combos:
  "all_combos (sorted_candidates pair_sketch bore_circle) =
     [[(box_profile 1 98 (pt 0 0 0) 5.64, 98, 0)], [(box_profile 0 1.5 (pt 5 0 0) 0.6, 1.5, 5)],
      [(box_profile 1 98 (pt 0 0 0) 5.64, 98, 0), (box_profile 0 1.5 (pt 5 0 0) 0.6, 1.5, 5)]]"
  unfolding sorted_candidates_def pair_candidates
  by (simp add: all_combos_def cand_area_def combinations_numeral)

lemma pair_differences:
  "difference (area bore_circle) [(box_profile 1 98 (pt 0 0 0) 5.64, 98, 0)] = 2"
  "difference (area bore_circle) [(box_profile 0 1.5 (pt 5 0 0) 0.6, 1.5, 5)] = 98.5"
  "difference (area bore_circle)
     [(box_profile 1 98 (pt 0 0 0) 5.64, 98, 0), (box_profile 0 1.5 (pt 5 0 0) 0.6, 1.5, 5)] = 0.5"
  "area bore_circle = 100"
  by (simp_all add: difference_def cand_area_def bore_circle_def)

theorem acceptance_boundary_witness:
  "parentSketch bore_circle = sketch_id notch_sketch \<and>
   coarse_filter bore_circle (profiles notch_sketch) \<noteq> [] \<and>
   difference (area bore_circle) [(box_profile 0 97 (pt 0 0 0) 5.64, 97, 0)]
     = area bore_circle * 0.03 \<and>
   (\<exists>run. findProfileForCircle notch_sketch bore_circle = Inr run \<and>
          result run = SingleProfile (box_profile 0 97 (pt 0 0 0) 5.64)) \<and>
   parentSketch bore_circle = sketch_id pair_sketch \<and>
   coarse_filter bore_circle (profiles pair_sketch) \<noteq> [] \<and>
   (\<exists>run. findProfileForCircle pair_sketch bore_circle = Inr run \<and>
          result run = ProfileCollection
                         [box_profile 1 98 (pt 0 0 0) 5.64, box_profile 0 1.5 (pt 5 0 0) 0.6] \<and>
          length (combos_examined run) = 3)"
proof -
  have h1: "parentSketch bore_circle = sketch_id notch_sketch"
    by (simp add: bore_circle_def notch_sketch_def)
  have h2: "coarse_filter bore_circle (profiles notch_sketch) \<noteq> []"
    by (simp add: notch_candidates)
  have d: "difference (area bore_circle) [(box_profile 0 97 (pt 0 0 0) 5.64, 97, 0)]
     = area bore_circle * 0.03"
    by (simp add: difference_def cand_area_def bore_circle_def)
  from acceptance_boundary[OF h1 h2] obtain run best where
    r: "findProfileForCircle notch_sketch bore_circle = Inr run"
      "prefix (combos_examined run) (all_combos (sorted_candidates notch_sketch bore_circle))"
      "best \<in> set (combos_examined run)"
      "result run = (if difference (area bore_circle) best \<le> area bore_circle * 0.03
                     then as_result (map fst best) else NotFound)"
    by blast
  from r(2,3) have "best \<in> set (all_combos (sorted_candidates notch_sketch bore_circle))"
    using set_mono_prefix by blast
  then have "best = [(box_profile 0 97 (pt 0 0 0) 5.64, 97, 0)]"
    by (simp add: notch_combos)
  with r(4) d have "result run = SingleProfile (box_profile 0 97 (pt 0 0 0) 5.64)"
    by (simp add: as_result_def)
  with r(1) have notch: "\<exists>run. findProfileForCircle notch_sketch bore_circle = Inr run \<and>
          result run = SingleProfile (box_profile 0 97 (pt 0 0 0) 5.64)" by blast
  let ?c98 = "(box_profile 1 98 (pt 0 0 0) 5.64, 98::real, 0::real)"
  let ?c15 = "(box_profile 0 1.5 (pt 5 0 0) 0.6, 1.5::real, 5::real)"
  have g1: "parentSketch bore_circle = sketch_id pair_sketch"
    by (simp add: bore_circle_def pair_sketch_def)
  have g2: "coarse_filter bore_circle (profiles pair_sketch) \<noteq> []"
    unfolding pair_candidates by simp
  from acceptance_boundary[OF g1 g2] obtain run2 best2 where
    p: "findProfileForCircle pair_sketch bore_circle = Inr run2"
      "prefix (combos_examined run2) (all_combos (sorted_candidates pair_sketch bore_circle))"
      "best2 \<in> set (combos_examined run2)"
      "\<forall>c\<in>set (combos_examined run2).
         difference (area bore_circle) best2 \<le> difference (area bore_circle) c"
      "result run2 = (if difference (area bore_circle) best2 \<le> area bore_circle * 0.03
                     then as_result (map fst best2) else NotFound)"
      "area bore_circle * 0.00003 < difference (area bore_circle) best2 \<longrightarrow>
         combos_examined run2 = all_combos (sorted_candidates pair_sketch bore_circle)"
    by blast
  from p(2,3) have "best2 \<in> set (all_combos (sorted_candidates pair_sketch bore_circle))"
    using set_mono_prefix by blast
  then have cases: "best2 = [?c98] \<or> best2 = [?c15] \<or> best2 = [?c98, ?c15]"
    unfolding pair_combos by simp
  then have "area bore_circle * 0.00003 < difference (area bore_circle) best2"
    using pair_differences by auto
  with p(6) have whole: "combos_examined run2 = all_combos (sorted_candidates pair_sketch bore_circle)"
    by blast
  then have "[?c98, ?c15] \<in> set (combos_examined run2)" unfolding pair_combos by simp
  with p(4) have "difference (area bore_circle) best2 \<le> difference (area bore_circle) [?c98, ?c15]"
    by blast
  with cases have b2: "best2 = [?c98, ?c15]" using pair_differences by auto
  have le: "difference (area bore_circle) [?c98, ?c15] \<le> area bore_circle * 0.03"
    by (simp add: difference_def cand_area_def bore_circle_def)
  have "result run2 = as_result (map fst [?c98, ?c15])"
    using p(5) le unfolding b2 by (simp only: if_True)
  then have res: "result run2 = ProfileCollection
                         [box_profile 1 98 (pt 0 0 0) 5.64, box_profile 0 1.5 (pt 5 0 0) 0.6]"
    by (simp add: as_result_def)
  have len: "length (combos_examined run2) = 3" unfolding whole pair_combos by simp
  from p(1) res len have pair: "\<exists>run. findProfileForCircle pair_sketch bore_circle = Inr run \<and>
          result run = ProfileCollection
                         [box_profile 1 98 (pt 0 0 0) 5.64, box_profile 0 1.5 (pt 5 0 0) 0.6] \<and>
          length (combos_examined run) = 3" by blast
  from h1 h2 d notch g1 g2 pair show ?thesis by blast
qed

lemma split_sorted:
  "sorted_candidates split_sketch bore_circle =
     [(box_profile 2 60 (pt (- 1) 0 0) 5, 60, 1), (box_profile 0 40 (pt 1.5 0 0) 4, 40, 1.5),
      (box_profile 1 30 (pt 5 0 0) 3, 30, 5)]"
  by (simp add: sorted_candidates_def split_sketch_def bore_circle_def box_profile_def pt_def
      distanceTo_along_x Let_def cand_area_def)

lemma split_combos:
  "all_combos (sorted_candidates split_sketch bore_circle) =
     [[(box_profile 2 60 (pt (- 1) 0 0) 5, 60, 1)], [(box_profile 0 40 (pt 1.5 0 0) 4, 40, 1.5)],
      [(box_profile 1 30 (pt 5 0 0) 3, 30, 5)],
      [(box_profile 2 60 (pt (- 1) 0 0) 5, 60, 1), (box_profile 0 40 (pt 1.5 0 0) 4, 40, 1.5)],
      [(box_profile 2 60 (pt (- 1) 0 0) 5, 60, 1), (box_profile 1 30 (pt 5 0 0) 3, 30, 5)],
      [(box_profile 0 40 (pt 1.5 0 0) 4, 40, 1.5), (box_profile 1 30 (pt 5 0 0) 3, 30, 5)],
      [(box_profile 2 60 (pt (- 1) 0 0) 5, 60, 1), (box_profile 0 40 (pt 1.5 0 0) 4, 40, 1.5),
       (box_profile 1 30 (pt 5 0 0) 3, 30, 5)]]"
  unfolding split_sorted by (simp add: all_combos_def combinations_numeral)

lemma first_hit_unique:
  "pre @ hit # post = pre' @ hit' # post' \<Longrightarrow>
   \<forall>x\<in>set pre. \<not> P x \<Longrightarrow> P hit \<Longrightarrow> \<forall>x\<in>set pre'. \<not> P x \<Longrightarrow> P hit' \<Longrightarrow>
   pre = pre' \<and> hit = hit'"
proof (induction pre arbitrary: pre')
  case Nil
  show ?case
  proof (cases pre')
    case Nil
    with Nil.prems(1) show ?thesis by simp
  next
    case (Cons b pre'')
    with Nil.prems(1) have "hit = b" by simp
    with Nil.prems(2-) Cons show ?thesis by simp
  qed
next
  case (Cons a pre)
  show ?case
  proof (cases pre')
    case Nil
    with Cons.prems(1) have "a = hit'" by simp
    with Cons.prems(2-) show ?thesis by simp
  next
    case (Cons b pre'')
    with Cons.prems(1) have ab: "a = b" and eq: "pre @ hit # post = pre'' @ hit' # post'"
      by simp_all
    have "pre = pre'' \<and> hit = hit'"
      using Cons.prems(2-) Cons by (intro Cons.IH[OF eq]) simp_all
    with ab Cons show ?thesis by simp
  qed
qed

theorem early_exit_witness:
  "parentSketch bore_circle = sketch_id split_sketch \<and>
   [(box_profile 2 60 (pt (- 1) 0 0) 5, 60, 1), (box_profile 0 40 (pt 1.5 0 0) 4, 40, 1.5)]
     \<in> set (all_combos (sorted_candidates split_sketch bore_circle)) \<and>
   difference (area bore_circle)
     [(box_profile 2 60 (pt (- 1) 0 0) 5, 60, 1), (box_profile 0 40 (pt 1.5 0 0) 4, 40, 1.5)]
     \<le> area bore_circle * 0.00003 \<and>
   (\<exists>run. findProfileForCircle split_sketch bore_circle = Inr run \<and>
      result run = ProfileCollection
                     [box_profile 2 60 (pt (- 1) 0 0) 5, box_profile 0 40 (pt 1.5 0 0) 4] \<and>
      length (combos_examined run) = 4 \<and>
      (\<forall>x\<in>set (combos_examined run). length x \<le> 2))"
proof -
  let ?c60 = "(box_profile 2 60 (pt (- 1) 0 0) 5, 60::real, 1::real)"
  let ?c40 = "(box_profile 0 40 (pt 1.5 0 0) 4, 40::real, 1.5::real)"
  let ?c30 = "(box_profile 1 30 (pt 5 0 0) 3, 30::real, 5::real)"
  have h1: "parentSketch bore_circle = sketch_id split_sketch"
    by (simp add: bore_circle_def split_sketch_def)
  have h2: "[?c60, ?c40] \<in> set (all_combos (sorted_candidates split_sketch bore_circle))"
    by (simp add: split_combos)
  have h3: "difference (area bore_circle) [?c60, ?c40] \<le> area bore_circle * 0.00003"
    by (simp add: difference_def cand_area_def bore_circle_def)
  from early_exit[OF h1 h2 h3] obtain pre hit post run where
    r: "all_combos (sorted_candidates split_sketch bore_circle) = pre @ hit # post"
      "\<forall>x\<in>set pre. difference (area bore_circle) x > area bore_circle * 0.00003"
      "difference (area bore_circle) hit \<le> area bore_circle * 0.00003"
      "findProfileForCircle split_sketch bore_circle = Inr run"
      "result run = as_result (map fst hit)"
      "combos_examined run = pre @ [hit]"
      "\<forall>x\<in>set (combos_examined run). length x \<le> length hit"
    by (elim exE conjE) (rule that, assumption+)
  have miss: "difference (area bore_circle) [?c60] > area bore_circle * 0.00003"
    "difference (area bore_circle) [?c40] > area bore_circle * 0.00003"
    "difference (area bore_circle) [?c30] > area bore_circle * 0.00003"
    by (simp_all add: difference_def cand_area_def bore_circle_def)
  have split: "all_combos (sorted_candidates split_sketch bore_circle) =
      [[?c60], [?c40], [?c30]] @ [?c60, ?c40] # [[?c60, ?c30], [?c40, ?c30], [?c60, ?c40, ?c30]]"
    unfolding split_combos by simp
  have miss': "\<forall>x\<in>set [[?c60], [?c40], [?c30]].
      \<not> difference (area bore_circle) x \<le> area bore_circle * 0.00003"
    using miss by (simp add: not_le)
  have pre': "\<forall>x\<in>set pre. \<not> difference (area bore_circle) x \<le> area bore_circle * 0.00003"
    using r(2) by (simp add: not_le)
  have ph: "[[?c60], [?c40], [?c30]] = pre \<and> [?c60, ?c40] = hit"
    by (rule first_hit_unique[OF split[unfolded r(1), symmetric] miss' h3 pre' r(3)])
  with r(5,6,7) have res: "result run = ProfileCollection
                     [box_profile 2 60 (pt (- 1) 0 0) 5, box_profile 0 40 (pt 1.5 0 0) 4]"
    "length (combos_examined run) = 4" "\<forall>x\<in>set (combos_examined run). length x \<le> 2"
    by (auto simp: as_result_def)
  show ?thesis
    apply (intro conjI exI[of _ run])
    using h1 h2 h3 r(4) res by blast+
qed


theorem combination_size_cap_witness:
  "findProfileForCircle notch_sketch bore_circle =
     Inr \<lparr>result = SingleProfile (box_profile 0 97 (pt 0 0 0) 5.64), profiles_queried = 1,
          combos_examined = [[(box_profile 0 97 (pt 0 0 0) 5.64, 97, 0)]]\<rparr> \<and>
   length (sorted_candidates notch_sketch bore_circle) \<le> 15 \<and>
   length [[(box_profile 0 97 (pt 0 0 0) 5.64, 97::real, 0::real)]] < 2 ^ 15"
proof -
  let ?run = "\<lparr>result = SingleProfile (box_profile 0 97 (pt 0 0 0) 5.64), profiles_queried = 1,
          combos_examined = [[(box_profile 0 97 (pt 0 0 0) 5.64, 97::real, 0::real)]]\<rparr>"
  have sc: "sorted_candidates notch_sketch bore_circle = [(box_profile 0 97 (pt 0 0 0) 5.64, 97, 0)]"
    unfolding sorted_candidates_def notch_candidates by simp
  have run: "findProfileForCircle notch_sketch bore_circle = Inr ?run"
    unfolding findProfileForCircle_def sc notch_candidates
    by (simp add: notch_sketch_def bore_circle_def search_def init_search_def
        try_combo_def near_perfect_def difference_def cand_area_def as_result_def Let_def)
  have len: "length (sorted_candidates notch_sketch bore_circle) \<le> 15" by (simp add: sc)
  from combination_size_cap[OF run] len
  have "length (combos_examined ?run) < 2 ^ 15" by blast
  with run len show ?thesis by simp
qed

theorem findProfileForCircle_foreign_sketch_witness:
  "parentSketch (bore_circle\<lparr>parentSketch := 2\<rparr>) \<noteq> sketch_id notch_sketch \<and>
   findProfileForCircle notch_sketch (bore_circle\<lparr>parentSketch := 2\<rparr>) =
     Inr \<lparr>result = NotFound, profiles_queried = 0, combos_examined = []\<rparr>"
proof -
  have h: "parentSketch (bore_circle\<lparr>parentSketch := 2\<rparr>) \<noteq> sketch_id notch_sketch"
    by (simp add: notch_sketch_def)
  from findProfileForCircle_foreign_sketch[OF h] h show ?thesis by simp
qed

section \<open>Properties of the direction inferencer and the distance calculator\<close>






lemma steps_eq: "steps = [1..<1001]"
  by (simp add: steps_def maxDistance_def stepSize_def)

lemma march_upt_stop:
  "k < n \<Longrightarrow> ins \<or> sample b c z m k = PointInsidePointContainment \<Longrightarrow>
   sample b c z m k = PointOutsidePointContainment \<Longrightarrow>
   march b c z m [k..<n] ins = Some (real k * stepSize)"
  by (auto simp: upt_conv_Cons sample_def Let_def)

lemma march_upt_step:
  "k < n \<Longrightarrow>
   \<not> ((ins \<or> sample b c z m k = PointInsidePointContainment) \<and>
       sample b c z m k = PointOutsidePointContainment) \<Longrightarrow>
   march b c z m [k..<n] ins =
     march b c z m [Suc k..<n] (ins \<or> sample b c z m k = PointInsidePointContainment)"
  by (auto simp: upt_conv_Cons sample_def Let_def)

lemma march_upt_nil: "\<not> k < n \<Longrightarrow> march b c z m [k..<n] ins = None"
  by simp

lemma march_first_exit:
  assumes "exit_at b c z m i" and "\<forall>k<i. \<not> exit_at b c z m k"
    and "1 \<le> k" and "k \<le> i" and "i < n"
    and "ins = (\<exists>j. 1 \<le> j \<and> j < k \<and> sample b c z m j = PointInsidePointContainment)"
  shows "march b c z m [k..<n] ins = Some (real i * stepSize)"
  using assms(3,4,6)
proof (induction "i - k" arbitrary: k ins)
  case 0
  then have "k = i" by simp
  with assms(1) 0 have "ins" "sample b c z m k = PointOutsidePointContainment"
    by (auto simp: exit_at_def)
  with \<open>k = i\<close> assms(5) show ?case by (simp add: march_upt_stop)
next
  case (Suc d)
  then have lt: "k < i" by simp
  with assms(2) have ne: "\<not> exit_at b c z m k" by simp
  have i1000: "i \<le> 1000" using assms(1) by (simp add: exit_at_def)
  have noexit: "\<not> ((ins \<or> sample b c z m k = PointInsidePointContainment) \<and>
              sample b c z m k = PointOutsidePointContainment)"
  proof
    assume a: "(ins \<or> sample b c z m k = PointInsidePointContainment) \<and>
              sample b c z m k = PointOutsidePointContainment"
    then have "ins" by auto
    with Suc.prems(3) a lt i1000 Suc.prems(1) have "exit_at b c z m k"
      by (auto simp: exit_at_def)
    with ne show False by simp
  qed
  have ins': "(ins \<or> sample b c z m k = PointInsidePointContainment) =
      (\<exists>j. 1 \<le> j \<and> j < Suc k \<and> sample b c z m j = PointInsidePointContainment)"
    using Suc.prems(1,3) by (auto simp: less_Suc_eq)
  have "march b c z m [Suc k..<n] (ins \<or> sample b c z m k = PointInsidePointContainment)
        = Some (real i * stepSize)"
    using Suc.hyps(2) lt ins' by (intro Suc.hyps(1)) auto
  moreover have "k < n" using lt assms(5) by simp
  ultimately show ?case using march_upt_step[OF _ noexit] by simp
qed

lemma march_no_exit:
  assumes "\<forall>i. \<not> exit_at b c z m i"
    and "1 \<le> k" and "n \<le> 1001"
    and "ins = (\<exists>j. 1 \<le> j \<and> j < k \<and> sample b c z m j = PointInsidePointContainment)"
  shows "march b c z m [k..<n] ins = None"
  using assms(2,4)
proof (induction "n - k" arbitrary: k ins)
  case 0
  then show ?case by (simp add: march_upt_nil)
next
  case (Suc d)
  then have lt: "k < n" by simp
  have noexit: "\<not> ((ins \<or> sample b c z m k = PointInsidePointContainment) \<and>
              sample b c z m k = PointOutsidePointContainment)"
  proof
    assume a: "(ins \<or> sample b c z m k = PointInsidePointContainment) \<and>
              sample b c z m k = PointOutsidePointContainment"
    then have "ins" by auto
    with Suc.prems a lt assms(3) have "exit_at b c z m k"
      by (auto simp: exit_at_def)
    with assms(1) show False by simp
  qed
  have ins': "(ins \<or> sample b c z m k = PointInsidePointContainment) =
      (\<exists>j. 1 \<le> j \<and> j < Suc k \<and> sample b c z m j = PointInsidePointContainment)"
    using Suc.prems by (auto simp: less_Suc_eq)
  have "march b c z m [Suc k..<n] (ins \<or> sample b c z m k = PointInsidePointContainment) = None"
    using Suc.hyps(2) lt ins' by (intro Suc.hyps(1)) auto
  then show ?case using march_upt_step[OF lt noexit] by simp
qed


lemma through_exit:
  assumes "exit_at b c z m i" and "\<forall>k<i. \<not> exit_at b c z m k"
  shows "march b c z m steps False = Some (real i * stepSize)"
proof -
  have "1 \<le> i" "i < 1001" using assms(1) by (auto simp: exit_at_def)
  then show ?thesis
    unfolding steps_eq
    by (intro march_first_exit[OF assms]) auto
qed

lemma through_no_exit:
  assumes "\<forall>i. \<not> exit_at b c z m i"
  shows "march b c z m steps False = None"
  unfolding steps_eq by (rule march_no_exit[OF assms]) auto

lemma slab_exit:
  assumes slab: "\<forall>d>0. pointContainment b (offset_plus c z (d * m)) = slab_class T d"
    and T: "stepSize < T" "T < maxDistance"
  shows "\<exists>i. exit_at b c z m i \<and> (\<forall>k<i. \<not> exit_at b c z m k) \<and>
             T < real i * stepSize \<and> real i * stepSize \<le> T + stepSize"
proof -
  have s: "sample b c z m k = slab_class T (real k * stepSize)" if "1 \<le> k" for k
  proof -
    have "0 < real k * stepSize" using that by (simp add: stepSize_def)
    with slab show ?thesis unfolding sample_def by blast
  qed
  define i where "i = nat \<lfloor>T / stepSize\<rfloor> + 1"
  have Tpos: "0 < T" using T(1) by (simp add: stepSize_def)
  have fl: "real (nat \<lfloor>T / stepSize\<rfloor>) \<le> T / stepSize" "T / stepSize < real (nat \<lfloor>T / stepSize\<rfloor>) + 1"
    using Tpos by (auto simp: stepSize_def)
  have up: "T < real i * stepSize" using fl(2) by (simp add: i_def stepSize_def field_simps)
  have lo: "real i * stepSize \<le> T + stepSize" using fl(1) by (simp add: i_def stepSize_def field_simps)
  have i1: "1 < i"
  proof -
    have "1 < T / stepSize" using T(1) by (simp add: stepSize_def)
    then have "1 \<le> \<lfloor>T / stepSize\<rfloor>" by linarith
    then show ?thesis by (simp add: i_def)
  qed
  have i1000: "i \<le> 1000"
  proof -
    have "T / stepSize < 1000" using T(2) by (simp add: stepSize_def maxDistance_def)
    then have "\<lfloor>T / stepSize\<rfloor> < 1000" by linarith
    then have "nat \<lfloor>T / stepSize\<rfloor> < 1000" by linarith
    then show ?thesis unfolding i_def by linarith
  qed
  have out: "sample b c z m i = PointOutsidePointContainment"
    using up i1 by (simp add: s slab_class_def)
  have ins: "sample b c z m 1 = PointInsidePointContainment"
    using T(1) by (simp add: s slab_class_def)
  have ex: "exit_at b c z m i"
    unfolding exit_at_def using i1 i1000 out ins by (intro conjI bexI[of _ 1]) auto
  have "\<not> exit_at b c z m k" if "k < i" for k
  proof (cases "1 \<le> k")
    case True
    from that have "real k \<le> real (nat \<lfloor>T / stepSize\<rfloor>)" by (simp add: i_def)
    with fl(1) have "real k * stepSize \<le> T" by (simp add: stepSize_def field_simps)
    then have "sample b c z m k \<noteq> PointOutsidePointContainment"
      using True by (simp add: s slab_class_def)
    then show ?thesis by (simp add: exit_at_def)
  next
    case False
    then show ?thesis by (simp add: exit_at_def)
  qed
  with ex up lo show ?thesis by blast
qed

text \<open>
  C3, as amended. The march takes steps of 1 mm up to 1 m; the first sample that is
  strictly outside after a strictly inside one is the exit, and the result is its distance
  plus 2 mm; without such a sample the result is 100 mm (10.0 cm). Consequently, when the
  ray from the anchor runs through material of thickness \<open>T\<close> with
  \<open>step < T < cap\<close>, the result is above \<open>T + margin\<close> and at most
  \<open>T + step + margin\<close>, the upper bound included.
\<close>

theorem through_distance:
  "findDistanceThroughBody sk circleCenter targetBody direction =
     through_result targetBody (center3D_of sk circleCenter) (zAxis (transform sk))
       (if direction = PositiveExtentDirection then 1 else - 1) \<and>
   (exit_at b c z m i \<and> (\<forall>k<i. \<not> exit_at b c z m k) \<longrightarrow>
      through_result b c z m = real i * stepSize + 0.2) \<and>
   ((\<forall>i. \<not> exit_at b c z m i) \<longrightarrow> through_result b c z m = 10.0) \<and>
   ((\<forall>d>0. pointContainment b (offset_plus c z (d * m)) = slab_class T d) \<and>
      stepSize < T \<and> T < maxDistance \<longrightarrow>
      T + 0.2 < through_result b c z m \<and> through_result b c z m \<le> T + stepSize + 0.2)"
proof (intro conjI impI)
  show "findDistanceThroughBody sk circleCenter targetBody direction =
     through_result targetBody (center3D_of sk circleCenter) (zAxis (transform sk))
       (if direction = PositiveExtentDirection then 1 else - 1)"
    by (simp add: findDistanceThroughBody_def through_result_def Let_def)
next
  assume "exit_at b c z m i \<and> (\<forall>k<i. \<not> exit_at b c z m k)"
  then have "march b c z m steps False = Some (real i * stepSize)"
    using through_exit by blast
  then show "through_result b c z m = real i * stepSize + 0.2"
    by (simp add: through_result_def)
next
  assume "\<forall>i. \<not> exit_at b c z m i"
  then have "march b c z m steps False = None" by (rule through_no_exit)
  then show "through_result b c z m = 10.0"
    by (simp add: through_result_def)
next
  assume a: "(\<forall>d>0. pointContainment b (offset_plus c z (d * m)) = slab_class T d) \<and>
      stepSize < T \<and> T < maxDistance"
  then obtain i where i: "exit_at b c z m i" "\<forall>k<i. \<not> exit_at b c z m k"
    "T < real i * stepSize" "real i * stepSize \<le> T + stepSize"
    using slab_exit[of b c z m T] by blast
  have "march b c z m steps False = Some (real i * stepSize)"
    using through_exit[OF i(1,2)] .
  then have r: "through_result b c z m = real i * stepSize + 0.2"
    by (simp add: through_result_def)
  show "T + 0.2 < through_result b c z m" using r i(3) by simp
  show "through_result b c z m \<le> T + stepSize + 0.2" using r i(4) by simp
qed


lemma center3D_world: "center3D_of plate_sketch (pt a b c) = pt a b 0"
  by (simp add: center3D_of_def plate_sketch_def world_xy_def transformBy_def pt_def)

lemma zAxis_world: "zAxis (transform plate_sketch) = pt 0 0 1"
  by (simp add: plate_sketch_def world_xy_def)


lemma plate_slab:
  "\<forall>d>0. pointContainment plate (offset_plus (pt 0 0 0) (pt 0 0 1) (d * (- 1))) = slab_class 1 d"
  by (simp add: plate_def offset_plus_def pt_sel slab_class_def)

lemma plate_sample:
  "1 \<le> k \<Longrightarrow> sample plate (pt 0 0 0) (pt 0 0 1) (- 1) k = slab_class 1 (real k * stepSize)"
  by (simp add: sample_def plate_def offset_plus_def pt_sel slab_class_def stepSize_def)

lemma plate_exit:
  "exit_at plate (pt 0 0 0) (pt 0 0 1) (- 1) 11"
  "\<forall>k<11. \<not> exit_at plate (pt 0 0 0) (pt 0 0 1) (- 1) k"
proof -
  show "exit_at plate (pt 0 0 0) (pt 0 0 1) (- 1) 11"
    unfolding exit_at_def
    by (intro conjI bexI[of _ 1]) (simp_all add: plate_sample slab_class_def stepSize_def)
  show "\<forall>k<11. \<not> exit_at plate (pt 0 0 0) (pt 0 0 1) (- 1) k"
  proof (intro allI impI)
    fix k :: nat assume "k < 11"
    then have "real k * stepSize \<le> 1" by (simp add: stepSize_def)
    then show "\<not> exit_at plate (pt 0 0 0) (pt 0 0 1) (- 1) k"
      by (cases "1 \<le> k") (auto simp: exit_at_def plate_sample slab_class_def)
  qed
qed

lemma plate_through:
  "findDistanceThroughBody plate_sketch (pt 0 0 0) plate NegativeExtentDirection = 1.3"
proof -
  have "march plate (pt 0 0 0) (pt 0 0 1) (- 1) steps False = Some (real 11 * stepSize)"
    by (rule through_exit[OF plate_exit])
  then show ?thesis
    by (simp add: findDistanceThroughBody_def center3D_world zAxis_world Let_def stepSize_def)
qed

lemma slab_sample:
  "sample (slab_body T) (pt 0 0 0) (pt 0 0 1) (- 1) k =
     (if - T < - (real k * stepSize) \<and> - (real k * stepSize) < 0 then PointInsidePointContainment
      else if - (real k * stepSize) = 0 \<or> - (real k * stepSize) = - T then PointOnPointContainment
      else PointOutsidePointContainment)"
  by (simp add: sample_def slab_body_def offset_plus_def pt_sel)

lemma film_no_exit: "\<forall>i. \<not> exit_at (slab_body 0.05) (pt 0 0 0) (pt 0 0 1) (- 1) i"
proof
  fix i
  have "sample (slab_body 0.05) (pt 0 0 0) (pt 0 0 1) (- 1) j \<noteq> PointInsidePointContainment"
    if "1 \<le> j" for j
  proof -
    have "1 \<le> real j" using that by simp
    then show ?thesis by (simp add: slab_sample stepSize_def)
  qed
  then show "\<not> exit_at (slab_body 0.05) (pt 0 0 0) (pt 0 0 1) (- 1) i"
    by (auto simp: exit_at_def)
qed

lemma block_no_exit: "\<forall>i. \<not> exit_at (slab_body 150) (pt 0 0 0) (pt 0 0 1) (- 1) i"
proof
  fix i
  have "sample (slab_body 150) (pt 0 0 0) (pt 0 0 1) (- 1) i \<noteq> PointOutsidePointContainment"
    if "1 \<le> i" "i \<le> 1000"
  proof -
    have "1 \<le> real i" "real i \<le> 1000" using that by simp_all
    then show ?thesis by (simp add: slab_sample stepSize_def)
  qed
  then show "\<not> exit_at (slab_body 150) (pt 0 0 0) (pt 0 0 1) (- 1) i"
    by (auto simp: exit_at_def)
qed

lemma fallback_through:
  assumes "\<forall>i. \<not> exit_at b (pt 0 0 0) (pt 0 0 1) (- 1) i"
  shows "findDistanceThroughBody plate_sketch (pt 0 0 0) b NegativeExtentDirection = 10"
proof -
  have "march b (pt 0 0 0) (pt 0 0 1) (- 1) steps False = None"
    by (rule through_no_exit[OF assms])
  then show ?thesis
    by (simp add: findDistanceThroughBody_def center3D_world zAxis_world Let_def)
qed

text \<open>
  C3 as stated fails. On the plate of thickness 1 cm the sample at 1.0 is on the surface,
  the exit is the sample at 1.1, and the result equals \<open>T + step + margin\<close>. A slab
  0.5 mm thick has no sample inside it, and one 150 cm thick has no exit within the cap:
  both give the fallback of 10 cm, above the interval for the first and below \<open>T\<close> for
  the second.
\<close>

theorem through_distance_counterexample:
  "findDistanceThroughBody plate_sketch (pt 0 0 0) plate NegativeExtentDirection = 1 + stepSize + 0.2 \<and>
   \<not> (1 \<le> findDistanceThroughBody plate_sketch (pt 0 0 0) plate NegativeExtentDirection \<and>
      findDistanceThroughBody plate_sketch (pt 0 0 0) plate NegativeExtentDirection < 1 + stepSize + 0.2) \<and>
   findDistanceThroughBody plate_sketch (pt 0 0 0) (slab_body 0.05) NegativeExtentDirection = 10 \<and>
   \<not> (findDistanceThroughBody plate_sketch (pt 0 0 0) (slab_body 0.05) NegativeExtentDirection
        < 0.05 + stepSize + 0.2) \<and>
   findDistanceThroughBody plate_sketch (pt 0 0 0) (slab_body 150) NegativeExtentDirection = 10 \<and>
   \<not> (150 \<le> findDistanceThroughBody plate_sketch (pt 0 0 0) (slab_body 150) NegativeExtentDirection)"
proof -
  have f: "findDistanceThroughBody plate_sketch (pt 0 0 0) (slab_body 0.05) NegativeExtentDirection = 10"
    by (rule fallback_through[OF film_no_exit])
  have b: "findDistanceThroughBody plate_sketch (pt 0 0 0) (slab_body 150) NegativeExtentDirection = 10"
    by (rule fallback_through[OF block_no_exit])
  show ?thesis unfolding plate_through f b by (simp add: stepSize_def)
qed


lemma nowhere_no_exit: "\<forall>i. \<not> exit_at nowhere (pt 0 0 0) (pt 0 0 1) 1 i"
  by (simp add: exit_at_def sample_def nowhere_def)

theorem through_distance_witness:
  "exit_at plate (pt 0 0 0) (pt 0 0 1) (- 1) 11 \<and>
   stepSize < 1 \<and> 1 < maxDistance \<and>
   findDistanceThroughBody plate_sketch (pt 0 0 0) plate NegativeExtentDirection = real 11 * stepSize + 0.2 \<and>
   1 + 0.2 < findDistanceThroughBody plate_sketch (pt 0 0 0) plate NegativeExtentDirection \<and>
   findDistanceThroughBody plate_sketch (pt 0 0 0) plate NegativeExtentDirection \<le> 1 + stepSize + 0.2 \<and>
   (\<forall>i. \<not> exit_at nowhere (pt 0 0 0) (pt 0 0 1) 1 i) \<and>
   findDistanceThroughBody plate_sketch (pt 0 0 0) nowhere PositiveExtentDirection = 10.0"
proof -
  have T: "stepSize < 1" "1 < maxDistance" by (simp_all add: stepSize_def maxDistance_def)
  note t1 = through_distance[of plate_sketch "pt 0 0 0" plate NegativeExtentDirection
      plate "pt 0 0 0" "pt 0 0 1" "- 1" 11 1]
  note t2 = through_distance[of plate_sketch "pt 0 0 0" nowhere PositiveExtentDirection
      nowhere "pt 0 0 0" "pt 0 0 1" 1 0 1]
  have eq1: "findDistanceThroughBody plate_sketch (pt 0 0 0) plate NegativeExtentDirection =
      through_result plate (pt 0 0 0) (pt 0 0 1) (- 1)"
    using t1 by (simp add: center3D_world zAxis_world)
  have eq2: "findDistanceThroughBody plate_sketch (pt 0 0 0) nowhere PositiveExtentDirection =
      through_result nowhere (pt 0 0 0) (pt 0 0 1) 1"
    using t2 by (simp add: center3D_world zAxis_world)
  have a: "through_result plate (pt 0 0 0) (pt 0 0 1) (- 1) = real 11 * stepSize + 0.2"
    using t1 plate_exit by blast
  have b: "1 + 0.2 < through_result plate (pt 0 0 0) (pt 0 0 1) (- 1) \<and>
           through_result plate (pt 0 0 0) (pt 0 0 1) (- 1) \<le> 1 + stepSize + 0.2"
    using t1 plate_slab T by blast
  have c: "through_result nowhere (pt 0 0 0) (pt 0 0 1) 1 = 10.0"
    using t2 nowhere_no_exit by blast
  show ?thesis
    unfolding eq1 eq2 using plate_exit(1) T a b c nowhere_no_exit by blast
qed

section \<open>Properties of the feature edge locator\<close>



lemma findChamferEdge_none:
  "chamfer_survivors b sk cc hd' = [] \<Longrightarrow> findChamferEdge b sk cc hd' = None"
  by (simp add: findChamferEdge_def chamfer_survivors_def Let_def)


lemma bottomEdge_none:
  "bottom_survivors b sk cc hd' = [] \<Longrightarrow> bottomEdge b sk cc hd' = None"
  by (simp add: bottomEdge_def bottom_survivors_def Let_def)




lemma vec_length_along_z: "px v = 0 \<Longrightarrow> py v = 0 \<Longrightarrow> vec_length v = \<bar>pz v\<bar>"
  by (simp add: vec_length_def)

lemma vec_length_along_x: "py v = 0 \<Longrightarrow> pz v = 0 \<Longrightarrow> vec_length v = \<bar>px v\<bar>"
  by (simp add: vec_length_def)

lemma vec_from_origin: "vec_between p (pt 0 0 0) = p"
  by (simp add: vec_between_def pt_sel)

lemma dot_z: "dot v (pt 0 0 1) = pz v"
  by (simp add: dot_def pt_sel)

lemma vec_length_offaxis: "vec_length (pt (21 / 200) 0 (- (11 / 10))) = 221 / 200"
  unfolding vec_length_def pt_sel by (rule real_sqrt_unique) (simp_all add: power2_eq_square)

lemma sqrt_offaxis: "sqrt (441 / 40000) = 21 / 200"
  by (rule real_sqrt_unique) (simp_all add: power2_eq_square)

lemma offaxis_perp: "perpDistance (pt 0 0 0) (pt 0 0 1) (pt 0.105 0 (- 1.1)) = 0.105"
  by (simp add: perpDistance_def Let_def vec_from_origin dot_z pt_sel vec_length_offaxis
      power2_eq_square sqrt_offaxis)

lemma offaxis_chamfer:
  "chamfer_candidates (pt 0 0 0) (pt 0 0 1) 0.22 [offaxis_edge] = [(offaxis_edge, 1.1)]"
proof -
  have "geometry offaxis_edge = Circle3D (pt 0.105 0 (- 1.1)) 0.22 (pt 0 0 1)"
    by (simp add: offaxis_edge_def)
  then show ?thesis
    by (simp add: Let_def vec_from_origin dot_z pt_sel vec_length_offaxis)
qed

lemma offaxis_bottom:
  "bottom_candidates (pt 0 0 0) (pt 0 0 1) 0.22 [offaxis_edge] = []"
proof -
  have "geometry offaxis_edge = Circle3D (pt 0.105 0 (- 1.1)) 0.22 (pt 0 0 1)"
    by (simp add: offaxis_edge_def)
  then show ?thesis
    by (simp add: Let_def vec_from_origin dot_z pt_sel vec_length_offaxis
        power2_eq_square sqrt_offaxis)
qed

lemma plate_chamfer_survivors:
  "chamfer_survivors plate plate_sketch (pt 0 0 0) 0.44 =
     [(\<lparr>edge_id = 1, geometry = Circle3D (pt 0 0 (- 0.67)) 0.22 (pt 0 0 1)\<rparr>, 0.67),
      (\<lparr>edge_id = 2, geometry = Circle3D (pt 0 0 0) 0.22 (pt 0 0 1)\<rparr>, 0)]"
  by (simp add: chamfer_survivors_def center3D_world zAxis_world plate_def plate_edges_def
      dot_def vec_between_def pt_sel vec_length_along_z vec_length_along_x Let_def)

lemma plate_bottom_survivors:
  "bottom_survivors plate plate_sketch (pt 0 0 0) 0.44 =
     [(\<lparr>edge_id = 1, geometry = Circle3D (pt 0 0 (- 0.67)) 0.22 (pt 0 0 1)\<rparr>, 0.67),
      (\<lparr>edge_id = 2, geometry = Circle3D (pt 0 0 0) 0.22 (pt 0 0 1)\<rparr>, 0)]"
  by (simp add: bottom_survivors_def center3D_world zAxis_world plate_def plate_edges_def
      dot_def vec_between_def pt_sel vec_length_along_z vec_length_along_x Let_def
      real_less_rsqrt)

text \<open>
  C7 at an input where the code departs from it: the chamfer-edge filter keeps (and
  \<^verbatim>\<open>findChamferEdge\<close> returns) an edge whose center is 1.05 mm away from the bore
  axis, because it compares the vector's length minus its projection (0.05 mm here) with
  the tolerance; the bottom-edge filter computes the perpendicular distance and drops the
  same edge.
\<close>

theorem chamfer_filter_keeps_offaxis_edge:
  "chamfer_candidates (pt 0 0 0) (pt 0 0 1) 0.22 [offaxis_edge] = [(offaxis_edge, 1.1)] \<and>
   findChamferEdge offaxis_body plate_sketch (pt 0 0 0) 0.44 = Some offaxis_edge \<and>
   perpDistance (pt 0 0 0) (pt 0 0 1) (pt 0.105 0 (- 1.1)) = 0.105 \<and>
   bottom_candidates (pt 0 0 0) (pt 0 0 1) 0.22 [offaxis_edge] = []"
proof -
  have f: "findChamferEdge offaxis_body plate_sketch (pt 0 0 0) 0.44 = Some offaxis_edge"
    using offaxis_chamfer
    by (simp add: findChamferEdge_def offaxis_body_def center3D_world zAxis_world Let_def)
  from offaxis_chamfer f offaxis_perp offaxis_bottom show ?thesis by blast
qed



text \<open>
  What the two filters do guarantee for an edge they keep: it is circular, its radius is
  within 0.001 cm (chamfer) or 0.005 cm (bottom) of the expected one, its normal has an
  absolute dot product with the axis of at least 0.99 or 0.95, and the chamfer filter's
  length-minus-projection is at most 0.01 cm, the bottom filter's perpendicular distance at
  most 0.05 cm.
\<close>

lemma chamfer_candidates_sound:
  "(e, d) \<in> set (chamfer_candidates center3D z expectedRadius es) \<Longrightarrow>
   e \<in> set es \<and>
   (\<exists>edgeCenter edgeRadius edgeNormal.
      geometry e = Circle3D edgeCenter edgeRadius edgeNormal \<and>
      \<bar>edgeRadius - expectedRadius\<bar> \<le> 0.001 \<and>
      0.99 \<le> \<bar>dot edgeNormal z\<bar> \<and>
      vec_length (vec_between edgeCenter center3D) - \<bar>dot (vec_between edgeCenter center3D) z\<bar>
         \<le> 0.01 \<and>
      d = \<bar>dot (vec_between edgeCenter center3D) z\<bar>)"
proof (induction es)
  case Nil
  then show ?case by simp
next
  case (Cons a es)
  show ?case
  proof (cases "geometry a")
    case OtherCurve
    with Cons show ?thesis by auto
  next
    case (Circle3D ec er en)
    with Cons show ?thesis
      by (auto simp: Let_def split: if_splits)
  qed
qed

lemma bottom_candidates_sound:
  "(e, d) \<in> set (bottom_candidates center3D z expectedRadius es) \<Longrightarrow>
   e \<in> set es \<and>
   (\<exists>edgeCenter edgeRadius edgeNormal.
      geometry e = Circle3D edgeCenter edgeRadius edgeNormal \<and>
      \<bar>edgeRadius - expectedRadius\<bar> \<le> 0.005 \<and>
      0.95 \<le> \<bar>dot edgeNormal z\<bar> \<and>
      perpDistance center3D z edgeCenter \<le> 0.05 \<and>
      d = \<bar>dot (vec_between edgeCenter center3D) z\<bar>)"
proof (induction es)
  case Nil
  then show ?case by simp
next
  case (Cons a es)
  show ?case
  proof (cases "geometry a")
    case OtherCurve
    with Cons show ?thesis by auto
  next
    case (Circle3D ec er en)
    with Cons show ?thesis
      by (auto simp: Let_def perpDistance_def split: if_splits)
  qed
qed

section \<open>Properties of the orchestrator\<close>

lemma findProfileForCircle_no_error: "findProfileForCircle sk c \<noteq> Inl e"
proof (cases "parentSketch c = sketch_id sk \<and> coarse_filter c (profiles sk) \<noteq> []")
  case True
  then have ne: "sorted_candidates sk c \<noteq> []" by (simp add: sorted_candidates_Nil)
  from search_facts(1,3)[OF ne, of "area c"]
  obtain ps where "best_profiles (search (area c) (sorted_candidates sk c)) = Some ps"
    by (auto simp: best_inv_def)
  with True show ?thesis by (simp add: findProfileForCircle_def Let_def)
next
  case False
  then show ?thesis by (auto simp: findProfileForCircle_def Let_def)
qed

lemma deleteMe_ids: "fst ` set (deleteMe cid cs) = fst ` set cs - {cid}"
  by (auto simp: deleteMe_def)

lemma add_feature_fields:
  "circles (add_feature f s) = circles s" "next_circle (add_feature f s) = next_circle s"
  "successCount (add_feature f s) = successCount s" "failedCount (add_feature f s) = failedCount s"
  "fatal (add_feature f s) = fatal s"
  by (simp_all add: add_feature_def split: option.splits)

lemma add_feature_features:
  "(\<And>g. f = Some g \<Longrightarrow> \<not> is_cut g) \<Longrightarrow>
   \<exists>new. features (add_feature f s) = features s @ new \<and> (\<forall>g\<in>set new. \<not> is_cut g)"
  by (cases f) (auto simp: add_feature_def)

lemma chamfer_not_cut: "addChamferToEdge ok e cs = Some g \<Longrightarrow> \<not> is_cut g"
  by (auto simp: addChamferToEdge_def is_cut_def split: if_splits)

lemma fillet_not_cut: "addBottomRadiusToBlindHole ok b sk cc dia rs = Some g \<Longrightarrow> \<not> is_cut g"
  by (auto simp: addBottomRadiusToBlindHole_def is_cut_def Let_def split: if_splits option.splits)

lemma cosmetic_fields:
  "circles (cosmetic ch br dia cfg p s) = circles s"
  "next_circle (cosmetic ch br dia cfg p s) = next_circle s"
  "successCount (cosmetic ch br dia cfg p s) = successCount s + 1"
  "failedCount (cosmetic ch br dia cfg p s) = failedCount s"
  "fatal (cosmetic ch br dia cfg p s) = fatal s"
  by (simp_all add: cosmetic_def Let_def add_feature_fields split: option.splits)

lemma cosmetic_features:
  "\<exists>new. features (cosmetic ch br dia cfg p s) = features s @ new \<and> (\<forall>g\<in>set new. \<not> is_cut g)"
proof -
  define s3 where "s3 = (if ch
                then case findChamferEdge (body_view p) (point_sketch p) (point_geometry p) dia of
                       Some chamferEdge \<Rightarrow>
                         add_feature (addChamferToEdge (chamfer_kernel_ok p)
                                        chamferEdge (chamfer_size cfg)) s
                     | None \<Rightarrow> s
                else s)"
  define s4 where "s4 = (if br
                then add_feature
                       (addBottomRadiusToBlindHole (fillet_kernel_ok p)
                          (body_view p) (point_sketch p) (point_geometry p) dia
                          (bottom_radius_size cfg)) s3
                else s3)"
  have 3: "\<exists>new. features s3 = features s @ new \<and> (\<forall>g\<in>set new. \<not> is_cut g)"
    unfolding s3_def
    using add_feature_features[of "addChamferToEdge (chamfer_kernel_ok p) e (chamfer_size cfg)" s for e]
      chamfer_not_cut
    by (auto split: option.splits)
  have 4: "\<exists>new. features s4 = features s3 @ new \<and> (\<forall>g\<in>set new. \<not> is_cut g)"
    unfolding s4_def
    using add_feature_features[of "addBottomRadiusToBlindHole (fillet_kernel_ok p)
                          (body_view p) (point_sketch p) (point_geometry p) dia
                          (bottom_radius_size cfg)" s3] fillet_not_cut
    by auto
  from 3 obtain n3 where n3: "features s3 = features s @ n3" "\<forall>g\<in>set n3. \<not> is_cut g" by blast
  from 4 obtain n4 where n4: "features s4 = features s3 @ n4" "\<forall>g\<in>set n4. \<not> is_cut g" by blast
  have "features s4 = features s @ (n3 @ n4)" "\<forall>g\<in>set (n3 @ n4). \<not> is_cut g"
    using n3 n4 by auto
  moreover have "features (cosmetic ch br dia cfg p s) = features s4"
    by (simp add: cosmetic_def Let_def s3_def s4_def)
  ultimately show ?thesis by metis
qed

lemma process_point_cases:
  "process_point blind ch br r len cfg p s =
     (let cid = next_circle s;
          circle = addByCenterRadius p r;
          s1 = s\<lparr>circles := circles s @ [(cid, circle)], next_circle := Suc cid\<rparr>
      in case findProfileForCircle (point_sketch p) circle of
           Inl err \<Rightarrow> s1\<lparr>fatal := Some err\<rparr>
         | Inr run \<Rightarrow>
             if stage_failed r p
             then s1\<lparr>failedCount := failedCount s1 + 1, circles := deleteMe cid (circles s1)\<rparr>
             else if cut_raises p then s1\<lparr>fatal := Some KernelError\<rparr>
             else cosmetic ch br (r * 2.0) cfg p
                    (s1\<lparr>features := features s1 @
                         [CutFeature circle (result run)
                            (the (findExtrudeDirectionFromSketch (point_sketch p)
                                    (point_geometry p) (body_view p)))
                            (hole_distance blind len cfg p
                               (the (findExtrudeDirectionFromSketch (point_sketch p)
                                    (point_geometry p) (body_view p))))]\<rparr>))"
  by (auto simp: process_point_def stage_failed_def cosmetic_def hole_distance_def Let_def
      split: sum.splits option.splits)


lemma process_point_failed:
  assumes "stage_failed r p"
  shows "process_point blind ch br r len cfg p s =
           s\<lparr>circles := deleteMe (next_circle s)
                           (circles s @ [(next_circle s, addByCenterRadius p r)]),
             next_circle := Suc (next_circle s), failedCount := failedCount s + 1\<rparr>"
proof -
  from assms obtain run where
    "findProfileForCircle (point_sketch p) (addByCenterRadius p r) = Inr run"
    by (auto simp: stage_failed_def split: sum.splits)
  with assms show ?thesis by (simp add: process_point_cases Let_def)
qed

lemma process_point_cut:
  assumes "\<not> stage_failed r p" "\<not> cut_raises p"
  shows "\<exists>run dir.
           findProfileForCircle (point_sketch p) (addByCenterRadius p r) = Inr run \<and>
           findExtrudeDirectionFromSketch (point_sketch p) (point_geometry p) (body_view p)
             = Some dir \<and>
           process_point blind ch br r len cfg p s =
             cosmetic ch br (r * 2.0) cfg p
               (s\<lparr>circles := circles s @ [(next_circle s, addByCenterRadius p r)],
                  next_circle := Suc (next_circle s),
                  features := features s @
                    [CutFeature (addByCenterRadius p r) (result run) dir
                       (hole_distance blind len cfg p dir)]\<rparr>)"
proof -
  obtain run where run: "findProfileForCircle (point_sketch p) (addByCenterRadius p r) = Inr run"
    using findProfileForCircle_no_error[of "point_sketch p" "addByCenterRadius p r"]
    by (cases "findProfileForCircle (point_sketch p) (addByCenterRadius p r)") auto
  with assms(1) obtain dir where dir:
    "findExtrudeDirectionFromSketch (point_sketch p) (point_geometry p) (body_view p) = Some dir"
    by (auto simp: stage_failed_def)
  show ?thesis using run dir assms by (simp add: process_point_cases Let_def)
qed

lemma process_point_raises:
  assumes "\<not> stage_failed r p" "cut_raises p"
  shows "process_point blind ch br r len cfg p s =
           s\<lparr>circles := circles s @ [(next_circle s, addByCenterRadius p r)],
             next_circle := Suc (next_circle s), fatal := Some KernelError\<rparr>"
proof -
  obtain run where run: "findProfileForCircle (point_sketch p) (addByCenterRadius p r) = Inr run"
    using findProfileForCircle_no_error[of "point_sketch p" "addByCenterRadius p r"]
    by (cases "findProfileForCircle (point_sketch p) (addByCenterRadius p r)") auto
  show ?thesis using run assms by (simp add: process_point_cases Let_def)
qed

lemma process_point_next:
  "next_circle (process_point blind ch br r len cfg p s) = Suc (next_circle s)"
proof (cases "stage_failed r p")
  case True
  then show ?thesis by (simp add: process_point_failed)
next
  case False
  show ?thesis
  proof (cases "cut_raises p")
    case True
    with False show ?thesis by (simp add: process_point_raises)
  next
    case c: False
    from process_point_cut[OF False c, of blind ch br len cfg s]
    show ?thesis by (auto simp: cosmetic_fields)
  qed
qed

lemma process_point_ids:
  "circle_ids (process_point blind ch br r len cfg p s) =
     (if stage_failed r p then circle_ids s - {next_circle s}
      else insert (next_circle s) (circle_ids s))"
proof (cases "stage_failed r p")
  case True
  then show ?thesis by (auto simp: process_point_failed circle_ids_def deleteMe_ids)
next
  case False
  show ?thesis
  proof (cases "cut_raises p")
    case True
    with False show ?thesis by (auto simp: process_point_raises circle_ids_def)
  next
    case c: False
    from process_point_cut[OF False c, of blind ch br len cfg s] False
    show ?thesis by (auto simp: cosmetic_fields circle_ids_def)
  qed
qed

lemma process_point_counts:
  assumes "stage_failed r p \<or> \<not> cut_raises p"
  shows "fatal (process_point blind ch br r len cfg p s) = fatal s \<and>
         failedCount (process_point blind ch br r len cfg p s) =
           failedCount s + (if stage_failed r p then 1 else 0) \<and>
         successCount (process_point blind ch br r len cfg p s) =
           successCount s + (if stage_failed r p then 0 else 1)"
proof (cases "stage_failed r p")
  case True
  then show ?thesis by (simp add: process_point_failed)
next
  case False
  with assms have c: "\<not> cut_raises p" by simp
  from process_point_cut[OF False c, of blind ch br len cfg s] False
  show ?thesis by (auto simp: cosmetic_fields)
qed

lemma process_point_features:
  "\<exists>new. features (process_point blind ch br r len cfg p s) = features s @ new \<and>
     (\<forall>g\<in>set new. is_cut g \<longrightarrow>
        cut_diameter g = r * 2 \<and>
        (blind \<longrightarrow> cut_depth g = (len + blind_hole_extra_depth cfg) / 10))"
proof (cases "stage_failed r p")
  case True
  then show ?thesis by (simp add: process_point_failed)
next
  case False
  show ?thesis
  proof (cases "cut_raises p")
    case True
    with False show ?thesis by (simp add: process_point_raises)
  next
    case c: False
    from process_point_cut[OF False c, of blind ch br len cfg s]
    obtain run :: resolver_run and dir where
      e: "process_point blind ch br r len cfg p s =
             cosmetic ch br (r * 2.0) cfg p
               (s\<lparr>circles := circles s @ [(next_circle s, addByCenterRadius p r)],
                  next_circle := Suc (next_circle s),
                  features := features s @
                    [CutFeature (addByCenterRadius p r) (result run) dir
                       (hole_distance blind len cfg p dir)]\<rparr>)"
      by (elim exE conjE) (rule that, assumption)
    let ?cut = "CutFeature (addByCenterRadius p r) (result run) dir (hole_distance blind len cfg p dir)"
    from cosmetic_features[of ch br "r * 2.0" cfg p
        "s\<lparr>circles := circles s @ [(next_circle s, addByCenterRadius p r)],
                  next_circle := Suc (next_circle s),
                  features := features s @ [?cut]\<rparr>"]
    obtain new where new: "features (process_point blind ch br r len cfg p s) =
        features s @ ([?cut] @ new)" "\<forall>g\<in>set new. \<not> is_cut g"
      unfolding e by auto
    have "cut_diameter ?cut = r * 2 \<and>
        (blind \<longrightarrow> cut_depth ?cut = (len + blind_hole_extra_depth cfg) / 10)"
      by (simp add: cut_diameter_def cut_depth_def hole_distance_def addByCenterRadius_def)
    with new show ?thesis by (intro exI[of _ "[?cut] @ new"]) auto
  qed
qed


lemma process_point_fresh:
  "fresh s \<Longrightarrow> fresh (process_point blind ch br r len cfg p s)"
  unfolding fresh_def process_point_ids process_point_next
  by (auto simp: less_Suc_eq)

lemma process_points_fresh:
  "fresh s \<Longrightarrow> fresh (process_points blind ch br r len cfg pts s)"
  by (induction pts arbitrary: s) (auto simp: Let_def process_point_fresh)

lemma process_points_ids:
  "circle_ids (process_points blind ch br r len cfg pts s) \<subseteq>
     circle_ids s \<union> {next_circle s + k | k. k < length pts \<and> \<not> stage_failed r (pts ! k)}"
proof (induction pts arbitrary: s)
  case Nil
  show ?case by simp
next
  case (Cons p pts)
  let ?s1 = "process_point blind ch br r len cfg p s"
  have one: "circle_ids ?s1 \<subseteq>
      circle_ids s \<union> {next_circle s + k | k. k < length (p # pts) \<and> \<not> stage_failed r ((p # pts) ! k)}"
  proof
    fix i assume "i \<in> circle_ids ?s1"
    then have "i \<in> circle_ids s \<or> (i = next_circle s + 0 \<and> \<not> stage_failed r p)"
      by (auto simp: process_point_ids split: if_splits)
    then show "i \<in> circle_ids s \<union>
        {next_circle s + k | k. k < length (p # pts) \<and> \<not> stage_failed r ((p # pts) ! k)}"
      by (auto intro: exI[of _ 0])
  qed
  show ?case
  proof (cases "fatal ?s1 \<noteq> None")
    case True
    then show ?thesis using one by (simp add: Let_def)
  next
    case False
    have "circle_ids (process_points blind ch br r len cfg pts ?s1) \<subseteq>
        circle_ids s \<union> {next_circle s + k | k. k < length (p # pts) \<and> \<not> stage_failed r ((p # pts) ! k)}"
    proof
      fix i assume "i \<in> circle_ids (process_points blind ch br r len cfg pts ?s1)"
      with Cons.IH[of ?s1] have "i \<in> circle_ids ?s1 \<or>
          (\<exists>k. i = next_circle ?s1 + k \<and> k < length pts \<and> \<not> stage_failed r (pts ! k))"
        by auto
      then show "i \<in> circle_ids s \<union>
          {next_circle s + k | k. k < length (p # pts) \<and> \<not> stage_failed r ((p # pts) ! k)}"
      proof
        assume "i \<in> circle_ids ?s1"
        with one show ?thesis by blast
      next
        assume "\<exists>k. i = next_circle ?s1 + k \<and> k < length pts \<and> \<not> stage_failed r (pts ! k)"
        then obtain k where "i = next_circle s + Suc k" "Suc k < length (p # pts)"
          "\<not> stage_failed r ((p # pts) ! Suc k)"
          by (auto simp: process_point_next)
        then show ?thesis by blast
      qed
    qed
    with False show ?thesis by (simp add: Let_def)
  qed
qed

lemma process_points_counts:
  assumes "fatal s = None" and "\<forall>p\<in>set pts. stage_failed r p \<or> \<not> cut_raises p"
  shows "fatal (process_points blind ch br r len cfg pts s) = None \<and>
         failedCount (process_points blind ch br r len cfg pts s) =
           failedCount s + length (filter (stage_failed r) pts) \<and>
         successCount (process_points blind ch br r len cfg pts s) =
           successCount s + length (filter (\<lambda>p. \<not> stage_failed r p) pts)"
  using assms
proof (induction pts arbitrary: s)
  case Nil
  then show ?case by simp
next
  case (Cons p pts)
  let ?s1 = "process_point blind ch br r len cfg p s"
  from Cons.prems have ok: "stage_failed r p \<or> \<not> cut_raises p" by simp
  note c = process_point_counts[OF ok, of blind ch br len cfg s]
  from c Cons.prems have f: "fatal ?s1 = None" by simp
  from Cons.IH[OF f] Cons.prems(2) c f show ?case by (simp add: Let_def)
qed

lemma process_points_features:
  "\<exists>new. features (process_points blind ch br r len cfg pts s) = features s @ new \<and>
     (\<forall>g\<in>set new. is_cut g \<longrightarrow>
        cut_diameter g = r * 2 \<and>
        (blind \<longrightarrow> cut_depth g = (len + blind_hole_extra_depth cfg) / 10))"
proof (induction pts arbitrary: s)
  case Nil
  show ?case by simp
next
  case (Cons p pts)
  let ?s1 = "process_point blind ch br r len cfg p s"
  let ?P = "\<lambda>g. is_cut g \<longrightarrow>
        cut_diameter g = r * 2 \<and>
        (blind \<longrightarrow> cut_depth g = (len + blind_hole_extra_depth cfg) / 10)"
  from process_point_features[of blind ch br r len cfg p s] obtain n1 where
    n1: "features ?s1 = features s @ n1" "\<forall>g\<in>set n1. ?P g" by blast
  show ?case
  proof (cases "fatal ?s1 \<noteq> None")
    case True
    with n1 show ?thesis by (auto simp: Let_def)
  next
    case False
    from Cons.IH[of ?s1] obtain n2 where
      n2: "features (process_points blind ch br r len cfg pts ?s1) = features ?s1 @ n2"
        "\<forall>g\<in>set n2. ?P g" by blast
    have "features (process_points blind ch br r len cfg (p # pts) s) = features s @ (n1 @ n2)"
      using False n1 n2 by (simp add: Let_def)
    moreover have "\<forall>g\<in>set (n1 @ n2). ?P g" using n1 n2 by auto
    ultimately show ?thesis by blast
  qed
qed


lemma fresh_reset: "fresh (s\<lparr>successCount := a, failedCount := b, fatal := c\<rparr>) = fresh s"
  by (simp add: fresh_def circle_ids_def)

text \<open>
  C8. Cleanup invariant. A point that fails at profile resolution or at direction
  inference leaves the design as it was, except that the circle number is used up and the
  failed count is one higher: its circle is deleted, nothing is cut, and no fatal error is
  set, so the loop goes on. After the whole command, the circle of no such point is in the
  design; and when no cut raises, every point is counted, the failed ones as failed.
\<close>

theorem cleanup_invariant:
  assumes "INSERT_SPECS (insertName inputs) = Some (holeDia, insertLen, minWall)"
    and "fresh design"
  shows "(\<forall>k<length (selectedPoints inputs).
            stage_failed (holeDia / 2 / 10) (selectedPoints inputs ! k) \<longrightarrow>
            next_circle design + k \<notin> circle_ids (notify INSERT_SPECS CONFIG inputs design)) \<and>
         ((\<forall>p\<in>set (selectedPoints inputs).
              stage_failed (holeDia / 2 / 10) p \<or> \<not> cut_raises p) \<longrightarrow>
            fatal (notify INSERT_SPECS CONFIG inputs design) = None \<and>
            failedCount (notify INSERT_SPECS CONFIG inputs design) =
              length (filter (stage_failed (holeDia / 2 / 10)) (selectedPoints inputs)) \<and>
            successCount (notify INSERT_SPECS CONFIG inputs design) =
              length (filter (\<lambda>p. \<not> stage_failed (holeDia / 2 / 10) p) (selectedPoints inputs))) \<and>
         (stage_failed r p \<longrightarrow>
            process_point blind ch br r len CONFIG p s =
              s\<lparr>circles := deleteMe (next_circle s)
                              (circles s @ [(next_circle s, addByCenterRadius p r)]),
                next_circle := Suc (next_circle s), failedCount := failedCount s + 1\<rparr> \<and>
            next_circle s \<notin> circle_ids (process_point blind ch br r len CONFIG p s))"
proof -
  let ?r = "holeDia / 2 / 10"
  let ?pts = "selectedPoints inputs"
  let ?s0 = "design\<lparr>successCount := 0, failedCount := 0, fatal := None\<rparr>"
  let ?b = "blindHoleSelected inputs"
  let ?ch = "addChamfer inputs"
  let ?br = "addBottomRadius inputs \<and> blindHoleSelected inputs"
  have n: "notify INSERT_SPECS CONFIG inputs design =
      process_points ?b ?ch ?br ?r insertLen CONFIG ?pts ?s0"
    using assms(1) by (simp add: notify_def Let_def)
  have f0: "fresh ?s0" using assms(2) by (simp add: fresh_reset)
  have ids0: "circle_ids ?s0 = circle_ids design" "next_circle ?s0 = next_circle design"
    by (simp_all add: circle_ids_def)
  have 1: "next_circle design + k \<notin> circle_ids (notify INSERT_SPECS CONFIG inputs design)"
    if k: "k < length ?pts" "stage_failed ?r (?pts ! k)" for k
  proof
    assume "next_circle design + k \<in> circle_ids (notify INSERT_SPECS CONFIG inputs design)"
    with process_points_ids[of ?b ?ch ?br ?r insertLen CONFIG ?pts ?s0]
    have "next_circle design + k \<in> circle_ids design \<or>
        (\<exists>k'. next_circle design + k = next_circle design + k' \<and> k' < length ?pts \<and>
              \<not> stage_failed ?r (?pts ! k'))"
      unfolding n ids0 by blast
    then show False
    proof
      assume "next_circle design + k \<in> circle_ids design"
      with assms(2) show False by (auto simp: fresh_def)
    next
      assume "\<exists>k'. next_circle design + k = next_circle design + k' \<and> k' < length ?pts \<and>
              \<not> stage_failed ?r (?pts ! k')"
      with k(2) show False by auto
    qed
  qed
  have 2: "fatal (notify INSERT_SPECS CONFIG inputs design) = None \<and>
            failedCount (notify INSERT_SPECS CONFIG inputs design) =
              length (filter (stage_failed ?r) ?pts) \<and>
            successCount (notify INSERT_SPECS CONFIG inputs design) =
              length (filter (\<lambda>p. \<not> stage_failed ?r p) ?pts)"
    if "\<forall>p\<in>set ?pts. stage_failed ?r p \<or> \<not> cut_raises p"
    using process_points_counts[of ?s0 ?pts ?r ?b ?ch ?br insertLen CONFIG] that
    unfolding n by simp
  have 3: "process_point blind ch br r len CONFIG p s =
              s\<lparr>circles := deleteMe (next_circle s)
                              (circles s @ [(next_circle s, addByCenterRadius p r)]),
                next_circle := Suc (next_circle s), failedCount := failedCount s + 1\<rparr> \<and>
            next_circle s \<notin> circle_ids (process_point blind ch br r len CONFIG p s)"
    if "stage_failed r p"
    using that process_point_failed[OF that] process_point_ids[of blind ch br r len CONFIG p s]
    by simp
  from 1 2 3 show ?thesis by blast
qed

lemma m3_default: "default_inserts ''M3 x 5.7mm (standard)'' = Some (4.4, 5.7, 1.6)"
  by (simp add: default_inserts_def)

text \<open>
  C9. Blind-hole depth formula. Every cut a blind-hole command adds has the depth
  (insert length + extra depth) / 10 in cm and the diameter of the insert's hole; for
  the insert M3 x 5.7mm (standard) with extra depth 1.0 mm that is a depth of 6.7 mm and
  a diameter of 4.4 mm.
\<close>

theorem blind_hole_depth:
  assumes "INSERT_SPECS (insertName inputs) = Some (holeDia, insertLen, minWall)"
    and "blindHoleSelected inputs"
  shows "\<exists>new. features (notify INSERT_SPECS CONFIG inputs design) = features design @ new \<and>
           (\<forall>g\<in>set new. is_cut g \<longrightarrow>
              cut_depth g = (insertLen + blind_hole_extra_depth CONFIG) / 10 \<and>
              cut_diameter g = holeDia / 10 \<and>
              (INSERT_SPECS = default_inserts \<and> insertName inputs = ''M3 x 5.7mm (standard)'' \<and>
               blind_hole_extra_depth CONFIG = 1.0 \<longrightarrow>
                 cut_depth g * 10 = 6.7 \<and> cut_diameter g * 10 = 4.4))"
proof -
  let ?r = "holeDia / 2 / 10"
  let ?s0 = "design\<lparr>successCount := 0, failedCount := 0, fatal := None\<rparr>"
  have n: "notify INSERT_SPECS CONFIG inputs design =
      process_points True (addChamfer inputs) (addBottomRadius inputs) ?r insertLen CONFIG
        (selectedPoints inputs) ?s0"
    using assms by (simp add: notify_def Let_def)
  from process_points_features[of True "addChamfer inputs" "addBottomRadius inputs" ?r insertLen
      CONFIG "selectedPoints inputs" ?s0]
  obtain new where new: "features (notify INSERT_SPECS CONFIG inputs design) = features design @ new"
    "\<forall>g\<in>set new. is_cut g \<longrightarrow>
        cut_diameter g = ?r * 2 \<and> cut_depth g = (insertLen + blind_hole_extra_depth CONFIG) / 10"
    unfolding n by auto
  have "cut_depth g = (insertLen + blind_hole_extra_depth CONFIG) / 10 \<and>
        cut_diameter g = holeDia / 10 \<and>
        (INSERT_SPECS = default_inserts \<and> insertName inputs = ''M3 x 5.7mm (standard)'' \<and>
         blind_hole_extra_depth CONFIG = 1.0 \<longrightarrow>
           cut_depth g * 10 = 6.7 \<and> cut_diameter g * 10 = 4.4)"
    if g: "g \<in> set new" "is_cut g" for g
  proof -
    from new(2) g have d: "cut_diameter g = ?r * 2"
      "cut_depth g = (insertLen + blind_hole_extra_depth CONFIG) / 10" by auto
    have "cut_depth g * 10 = 6.7 \<and> cut_diameter g * 10 = 4.4"
      if "INSERT_SPECS = default_inserts" "insertName inputs = ''M3 x 5.7mm (standard)''"
        "blind_hole_extra_depth CONFIG = 1.0"
    proof -
      from that(1,2) assms(1) m3_default have "holeDia = 4.4" "insertLen = 5.7" by simp_all
      with d that(3) show ?thesis by simp
    qed
    with d show ?thesis by simp
  qed
  with new(1) show ?thesis by blast
qed


lemma plate_sketch_sel:
  "sketch_id plate_sketch = 1"
  "profiles plate_sketch = [box_profile 0 99.848 (pt 0 0 0) 5, box_profile 1 0.152 (pt 0 0 0) 0.22]"
  by (simp_all add: plate_sketch_def)

lemma plate_resolve:
  assumes "n = 1" "r = 0.22" "a = 0.152"
  shows "findProfileForCircle plate_sketch
           \<lparr>parentSketch = n, centerSketchPoint = pt 0 0 0, radius = r, area = a\<rparr> =
         Inr \<lparr>result = SingleProfile (box_profile 1 0.152 (pt 0 0 0) 0.22), profiles_queried = 2,
              combos_examined = [[(box_profile 1 0.152 (pt 0 0 0) 0.22, 0.152, 0)]]\<rparr>"
proof -
  let ?c = "\<lparr>parentSketch = n, centerSketchPoint = pt 0 0 0, radius = r, area = a\<rparr>"
  have cf: "coarse_filter ?c (profiles plate_sketch) = [(box_profile 1 0.152 (pt 0 0 0) 0.22, 0.152, 0)]"
    unfolding plate_sketch_sel assms(2,3)
    by (simp add: box_profile_def pt_sel distanceTo_along_x Let_def)
  have sc: "sorted_candidates plate_sketch ?c = [(box_profile 1 0.152 (pt 0 0 0) 0.22, 0.152, 0)]"
    unfolding sorted_candidates_def cf by simp
  show ?thesis
    unfolding findProfileForCircle_def sc cf
    by (simp add: plate_sketch_sel assms search_def init_search_def try_combo_def near_perfect_def
        difference_def cand_area_def as_result_def Let_def)
qed

lemma lost_resolve:
  "n = 1 \<Longrightarrow>
   findProfileForCircle (plate_sketch\<lparr>profiles := []\<rparr>)
     \<lparr>parentSketch = n, centerSketchPoint = c, radius = r, area = a\<rparr> =
   Inr \<lparr>result = NotFound, profiles_queried = 0, combos_examined = []\<rparr>"
  by (simp add: findProfileForCircle_def plate_sketch_sel)

lemma plate_direction:
  "findExtrudeDirectionFromSketch plate_sketch (pt 0 0 0) plate = Some NegativeExtentDirection"
  by (simp add: findExtrudeDirectionFromSketch_def center3D_world zAxis_world Let_def plate_def
      offset_plus_def offset_minus_def pt_sel testDistances_def)

lemma air_direction:
  "findExtrudeDirectionFromSketch plate_sketch (pt 0 0 0) nowhere = None"
  by (simp add: findExtrudeDirectionFromSketch_def Let_def nowhere_def testDistances_def)

lemma plate_chamfer_edge:
  assumes "dia = 0.44"
  shows "findChamferEdge plate plate_sketch (pt 0 0 0) dia =
           Some \<lparr>edge_id = 2, geometry = Circle3D (pt 0 0 0) 0.22 (pt 0 0 1)\<rparr>"
proof -
  have "chamfer_candidates (center3D_of plate_sketch (pt 0 0 0)) (zAxis (transform plate_sketch))
           (0.44 / 2.0) (edges plate) =
     [(\<lparr>edge_id = 1, geometry = Circle3D (pt 0 0 (- 0.67)) 0.22 (pt 0 0 1)\<rparr>, 0.67),
      (\<lparr>edge_id = 2, geometry = Circle3D (pt 0 0 0) 0.22 (pt 0 0 1)\<rparr>, 0)]"
    using plate_chamfer_survivors unfolding chamfer_survivors_def .
  then show ?thesis unfolding findChamferEdge_def assms Let_def by simp
qed

lemma plate_bottom_edge:
  assumes "dia = 0.44"
  shows "bottomEdge plate plate_sketch (pt 0 0 0) dia =
           Some (\<lparr>edge_id = 1, geometry = Circle3D (pt 0 0 (- 0.67)) 0.22 (pt 0 0 1)\<rparr>, 0.67)"
proof -
  have "bottom_candidates (center3D_of plate_sketch (pt 0 0 0)) (zAxis (transform plate_sketch))
           (0.44 / 2.0) (edges plate) =
     [(\<lparr>edge_id = 1, geometry = Circle3D (pt 0 0 (- 0.67)) 0.22 (pt 0 0 1)\<rparr>, 0.67),
      (\<lparr>edge_id = 2, geometry = Circle3D (pt 0 0 0) 0.22 (pt 0 0 1)\<rparr>, 0)]"
    using plate_bottom_survivors unfolding bottom_survivors_def .
  then show ?thesis unfolding bottomEdge_def assms Let_def by simp
qed

lemma plate_point_sel:
  "point_geometry plate_point = pt 0 0 0" "point_sketch plate_point = plate_sketch"
  "kernel_circle_area plate_point = 0.152" "body_view plate_point = plate"
  "cut_raises plate_point = False" "chamfer_kernel_ok plate_point = True"
  "fillet_kernel_ok plate_point = True"
  by (simp_all add: plate_point_def)

lemma stage_plate: "r = 0.22 \<Longrightarrow> \<not> stage_failed r plate_point"
  by (simp add: stage_failed_def addByCenterRadius_def plate_point_sel plate_sketch_sel
      plate_resolve plate_direction)

lemma stage_air: "r = 0.22 \<Longrightarrow> stage_failed r air_point"
  by (simp add: stage_failed_def addByCenterRadius_def air_point_def plate_point_sel
      plate_sketch_sel plate_resolve air_direction)

lemma stage_lost: "stage_failed r lost_point"
  by (simp add: stage_failed_def addByCenterRadius_def lost_point_def plate_point_sel
      plate_sketch_sel lost_resolve)

lemma plate_run:
  "notify default_inserts default_config (m3_command [plate_point]) empty_design =
     \<lparr>circles = [(0, \<lparr>parentSketch = 1, centerSketchPoint = pt 0 0 0, radius = 0.22,
                      area = 0.152\<rparr>)],
      next_circle = 1,
      features =
        [CutFeature \<lparr>parentSketch = 1, centerSketchPoint = pt 0 0 0, radius = 0.22, area = 0.152\<rparr>
           (SingleProfile (box_profile 1 0.152 (pt 0 0 0) 0.22)) NegativeExtentDirection 0.67,
         ChamferFeature \<lparr>edge_id = 2, geometry = Circle3D (pt 0 0 0) 0.22 (pt 0 0 1)\<rparr> 0.05,
         FilletFeature \<lparr>edge_id = 1, geometry = Circle3D (pt 0 0 (- 0.67)) 0.22 (pt 0 0 1)\<rparr> 0.05],
      successCount = 1, failedCount = 0, fatal = None\<rparr>"
  by (simp add: notify_def m3_command_def m3_default empty_design_def default_config_def
      process_point_def addByCenterRadius_def plate_point_sel plate_sketch_sel plate_resolve
      plate_direction plate_chamfer_edge plate_bottom_edge addChamferToEdge_def
      addBottomRadiusToBlindHole_def add_feature_def Let_def)


theorem blind_hole_depth_witness:
  "default_inserts (insertName (m3_command [plate_point])) = Some (4.4, 5.7, 1.6) \<and>
   blindHoleSelected (m3_command [plate_point]) \<and>
   blind_hole_extra_depth default_config = 1.0 \<and>
   features (notify default_inserts default_config (m3_command [plate_point]) empty_design) =
     [CutFeature \<lparr>parentSketch = 1, centerSketchPoint = pt 0 0 0, radius = 0.22, area = 0.152\<rparr>
        (SingleProfile (box_profile 1 0.152 (pt 0 0 0) 0.22)) NegativeExtentDirection 0.67,
      ChamferFeature \<lparr>edge_id = 2, geometry = Circle3D (pt 0 0 0) 0.22 (pt 0 0 1)\<rparr> 0.05,
      FilletFeature \<lparr>edge_id = 1, geometry = Circle3D (pt 0 0 (- 0.67)) 0.22 (pt 0 0 1)\<rparr> 0.05] \<and>
   cut_depth (CutFeature \<lparr>parentSketch = 1, centerSketchPoint = pt 0 0 0, radius = 0.22, area = 0.152\<rparr>
        (SingleProfile (box_profile 1 0.152 (pt 0 0 0) 0.22)) NegativeExtentDirection 0.67) * 10 = 6.7 \<and>
   cut_diameter (CutFeature \<lparr>parentSketch = 1, centerSketchPoint = pt 0 0 0, radius = 0.22, area = 0.152\<rparr>
        (SingleProfile (box_profile 1 0.152 (pt 0 0 0) 0.22)) NegativeExtentDirection 0.67) * 10 = 4.4 \<and>
   successCount (notify default_inserts default_config (m3_command [plate_point]) empty_design) = 1"
proof -
  let ?cut = "CutFeature \<lparr>parentSketch = 1, centerSketchPoint = pt 0 0 0, radius = 0.22, area = 0.152\<rparr>
        (SingleProfile (box_profile 1 0.152 (pt 0 0 0) 0.22)) NegativeExtentDirection 0.67"
  let ?run = "notify default_inserts default_config (m3_command [plate_point]) empty_design"
  have h1: "default_inserts (insertName (m3_command [plate_point])) = Some (4.4, 5.7, 1.6)"
    unfolding m3_command_def by (simp add: m3_default)
  have h2: "blindHoleSelected (m3_command [plate_point])" by (simp add: m3_command_def)
  have h3: "blind_hole_extra_depth default_config = 1.0" by (simp add: default_config_def)
  have nm: "insertName (m3_command [plate_point]) = ''M3 x 5.7mm (standard)''"
    by (simp add: m3_command_def)
  have fs: "features ?run = [?cut,
      ChamferFeature \<lparr>edge_id = 2, geometry = Circle3D (pt 0 0 0) 0.22 (pt 0 0 1)\<rparr> 0.05,
      FilletFeature \<lparr>edge_id = 1, geometry = Circle3D (pt 0 0 (- 0.67)) 0.22 (pt 0 0 1)\<rparr> 0.05]"
    and sc: "successCount ?run = 1"
    unfolding plate_run by simp_all
  from blind_hole_depth[where INSERT_SPECS = default_inserts
      and inputs = "m3_command [plate_point]" and CONFIG = default_config
      and design = empty_design, OF h1 h2] obtain new where
    new: "features ?run = features empty_design @ new"
      "\<forall>g\<in>set new. is_cut g \<longrightarrow>
              cut_depth g = (5.7 + blind_hole_extra_depth default_config) / 10 \<and>
              cut_diameter g = 4.4 / 10 \<and>
              (default_inserts = default_inserts \<and>
               insertName (m3_command [plate_point]) = ''M3 x 5.7mm (standard)'' \<and>
               blind_hole_extra_depth default_config = 1.0 \<longrightarrow>
                 cut_depth g * 10 = 6.7 \<and> cut_diameter g * 10 = 4.4)"
    by (elim exE conjE) (rule that, assumption+)
  from new(1) fs have "?cut \<in> set new" by (simp add: empty_design_def)
  moreover have "is_cut ?cut" by (simp add: is_cut_def)
  ultimately have "cut_depth ?cut * 10 = 6.7 \<and> cut_diameter ?cut * 10 = 4.4"
    using new(2) nm h3 by blast
  with h1 h2 h3 fs sc show ?thesis by blast
qed

theorem cleanup_invariant_witness:
  "default_inserts (insertName (m3_command [lost_point, plate_point, air_point]))
     = Some (4.4, 5.7, 1.6) \<and>
   fresh empty_design \<and>
   \<not> cut_raises plate_point \<and>
   stage_failed (4.4 / 2 / 10) lost_point \<and> stage_failed (4.4 / 2 / 10) air_point \<and>
   0 \<notin> circle_ids (notify default_inserts default_config
                       (m3_command [lost_point, plate_point, air_point]) empty_design) \<and>
   2 \<notin> circle_ids (notify default_inserts default_config
                       (m3_command [lost_point, plate_point, air_point]) empty_design) \<and>
   fatal (notify default_inserts default_config
            (m3_command [lost_point, plate_point, air_point]) empty_design) = None \<and>
   failedCount (notify default_inserts default_config
                  (m3_command [lost_point, plate_point, air_point]) empty_design) = 2 \<and>
   successCount (notify default_inserts default_config
                   (m3_command [lost_point, plate_point, air_point]) empty_design) = 1"
proof -
  let ?inputs = "m3_command [lost_point, plate_point, air_point]"
  let ?run = "notify default_inserts default_config ?inputs empty_design"
  have h1: "default_inserts (insertName ?inputs) = Some (4.4, 5.7, 1.6)"
    unfolding m3_command_def by (simp add: m3_default)
  have h2: "fresh empty_design" by (simp add: fresh_def circle_ids_def empty_design_def)
  have pts: "selectedPoints ?inputs = [lost_point, plate_point, air_point]"
    by (simp add: m3_command_def)
  have st: "stage_failed (4.4 / 2 / 10) lost_point" "\<not> stage_failed (4.4 / 2 / 10) plate_point"
    "stage_failed (4.4 / 2 / 10) air_point"
    by (simp_all add: stage_lost stage_plate stage_air)
  have nr: "\<not> cut_raises plate_point" by (simp add: plate_point_sel)
  have h3: "\<forall>p\<in>set (selectedPoints ?inputs). stage_failed (4.4 / 2 / 10) p \<or> \<not> cut_raises p"
    unfolding pts using st nr by simp
  note t = cleanup_invariant[where INSERT_SPECS = default_inserts and inputs = ?inputs
      and CONFIG = default_config and design = empty_design, OF h1 h2]
  have ne: "next_circle empty_design = 0" by (simp add: empty_design_def)
  have a0: "0 \<notin> circle_ids ?run"
  proof -
    have "0 < length (selectedPoints ?inputs)" "stage_failed (4.4 / 2 / 10) (selectedPoints ?inputs ! 0)"
      unfolding pts using st by simp_all
    with t have "next_circle empty_design + 0 \<notin> circle_ids ?run" by blast
    then show ?thesis unfolding ne add_0 .
  qed
  have a2: "2 \<notin> circle_ids ?run"
  proof -
    have "2 < length (selectedPoints ?inputs)" "stage_failed (4.4 / 2 / 10) (selectedPoints ?inputs ! 2)"
      unfolding pts using st by simp_all
    with t have "next_circle empty_design + 2 \<notin> circle_ids ?run" by blast
    then show ?thesis unfolding ne add_0 .
  qed
  from t h3 have c: "fatal ?run = None \<and>
      failedCount ?run = length (filter (stage_failed (4.4 / 2 / 10)) (selectedPoints ?inputs)) \<and>
      successCount ?run =
        length (filter (\<lambda>p. \<not> stage_failed (4.4 / 2 / 10) p) (selectedPoints ?inputs))"
    by blast
  have "failedCount ?run = 2" "successCount ?run = 1" "fatal ?run = None"
    using c unfolding pts using st by simp_all
  with h1 h2 nr st a0 a2 show ?thesis by blast
qed


end
